theory Spec2Isabelle
  imports Complex_Main "HOL-Library.AList" "HOL-Library.Multiset"
begin

section \<open>JavaScript values\<close>

text \<open>
  The scraper is a Node.js class. Its helpers return numbers, \<^verbatim>\<open>null\<close>, strings and
  object literals, and its validators inspect fields that may be \<^verbatim>\<open>null\<close> or
  \<^verbatim>\<open>undefined\<close>, so the values it handles are modelled by one datatype.

  A JavaScript number is an IEEE 754 double: \<open>NaN\<close>, an infinity, or a finite value.
  A finite double is kept as the rational it denotes; every operation that produces a
  number rounds its exact result with \<open>round_double\<close> below. The sign of zero is not
  tracked (\<^verbatim>\<open>-0 === 0\<close> in the source language).
\<close>

datatype jsnum = NaN | PosInf | NegInf | Fin rat

datatype jsval =
    JUndefined
  | JNull
  | JBool bool
  | JNum jsnum
  | JStr string
  | JArr "jsval list"
  | JObj "(string \<times> jsval) list"

type_synonym obj = "(string \<times> jsval) list"

text \<open>Reading a property: \<^verbatim>\<open>o[k]\<close> is \<^verbatim>\<open>undefined\<close> when the object has no such key.\<close>

definition get_prop :: "obj \<Rightarrow> string \<Rightarrow> jsval" where
  "get_prop ob k = (case map_of ob k of None \<Rightarrow> JUndefined | Some v \<Rightarrow> v)"

text \<open>Writing a property, \<^verbatim>\<open>o[k] = v\<close>: an existing key keeps its place, a new one goes last.\<close>

definition set_prop :: "obj \<Rightarrow> string \<Rightarrow> jsval \<Rightarrow> obj" where
  "set_prop ob k v = AList.update k v ob"

definition is_number :: "jsval \<Rightarrow> bool" where
  "is_number v = (case v of JNum _ \<Rightarrow> True | _ \<Rightarrow> False)"

text \<open>\<^verbatim>\<open>v < 0\<close> for a value whose \<^verbatim>\<open>typeof\<close> is \<^verbatim>\<open>'number'\<close>; every comparison with NaN is false.\<close>

fun num_negative :: "jsnum \<Rightarrow> bool" where
  "num_negative (Fin a) = (a < 0)"
| "num_negative NegInf = True"
| "num_negative PosInf = False"
| "num_negative NaN = False"

text \<open>\<^verbatim>\<open>Number.isInteger\<close>: a finite value with no fractional part.\<close>

fun is_integer :: "jsval \<Rightarrow> bool" where
  "is_integer (JNum (Fin a)) = (of_int \<lfloor>a\<rfloor> = a)"
| "is_integer _ = False"

subsection \<open>Rounding to a double\<close>

fun bitlen :: "nat \<Rightarrow> nat" where
  "bitlen n = (if n = 0 then 0 else Suc (bitlen (n div 2)))"

declare bitlen.simps [simp del]

definition pow2 :: "int \<Rightarrow> rat" where
  "pow2 e = (if 0 \<le> e then 2 ^ nat e else 1 / 2 ^ nat (- e))"

text \<open>The binary exponent of a positive rational: the \<open>e\<close> with \<open>2^e \<le> x < 2^(e+1)\<close>.\<close>

definition ilog2 :: "rat \<Rightarrow> int" where
  "ilog2 x =
     (if 1 \<le> x then int (bitlen (nat \<lfloor>x\<rfloor>)) - 1
      else (let d = 1 - int (bitlen (nat \<lfloor>1 / x\<rfloor>))
            in if pow2 d \<le> x then d else d - 1))"

definition round_half_even :: "rat \<Rightarrow> int" where
  "round_half_even q =
     (let f = \<lfloor>q\<rfloor>; r = q - of_int f
      in if r < 1 / 2 then f
         else if 1 / 2 < r then f + 1
         else if even f then f else f + 1)"

text \<open>
  Round to nearest, ties to even, on a 53-bit significand; below \<open>2^-1022\<close> the spacing
  stays \<open>2^-1074\<close> (subnormals), and a result of \<open>2^1024\<close> or more is an infinity.
\<close>

definition round_double :: "rat \<Rightarrow> jsnum" where
  "round_double x =
     (if x = 0 then Fin 0
      else (let e = max (ilog2 \<bar>x\<bar>) (- 1022);
                u = pow2 (e - 52);
                y = of_int (round_half_even (x / u)) * u
            in if pow2 1024 \<le> y then PosInf
               else if y \<le> - pow2 1024 then NegInf
               else Fin y))"

fun js_sign :: "jsnum \<Rightarrow> int" where
  "js_sign (Fin a) = (if a < 0 then - 1 else if a = 0 then 0 else 1)"
| "js_sign PosInf = 1"
| "js_sign NegInf = - 1"
| "js_sign NaN = 0"

text \<open>The product \<^verbatim>\<open>a * b\<close> of two numbers.\<close>

fun js_mult :: "jsnum \<Rightarrow> jsnum \<Rightarrow> jsnum" where
  "js_mult NaN _ = NaN"
| "js_mult _ NaN = NaN"
| "js_mult (Fin a) (Fin b) = round_double (a * b)"
| "js_mult x y =
     (if js_sign x * js_sign y = 0 then NaN
      else if 0 < js_sign x * js_sign y then PosInf else NegInf)"

section \<open>Text\<close>

text \<open>
  A text is the list of the bytes of a JavaScript string in UTF-8, where a surrogate
  code unit that has no partner (a lone surrogate, D800 to DFFF) is written like any
  other code point of its value: the byte ED, a byte from A0 to BF and a third byte. The
  digits, the signs, the separators and the unit letters that the patterns look for are
  single ASCII bytes, and no byte of a longer character is an ASCII byte.
\<close>

definition is_digit :: "char \<Rightarrow> bool" where
  "is_digit c = (c \<in> set ''0123456789'')"

text \<open>
  The characters that \<^verbatim>\<open>trim\<close> removes and \<^verbatim>\<open>\s\<close> matches: tab, line feed, vertical tab,
  form feed, carriage return, space, and U+00A0, U+1680, U+2000 to U+200A, U+2028,
  U+2029, U+202F, U+205F, U+3000 and U+FEFF, each as its bytes.
\<close>

definition space_seqs :: "string list" where
  "space_seqs =
     [[CHR 0x09], [CHR 0x0A], [CHR 0x0B], [CHR 0x0C], [CHR 0x0D], [CHR 0x20],
      [CHR 0xC2, CHR 0xA0],
      [CHR 0xE1, CHR 0x9A, CHR 0x80],
      [CHR 0xE2, CHR 0x80, CHR 0x80], [CHR 0xE2, CHR 0x80, CHR 0x81],
      [CHR 0xE2, CHR 0x80, CHR 0x82], [CHR 0xE2, CHR 0x80, CHR 0x83],
      [CHR 0xE2, CHR 0x80, CHR 0x84], [CHR 0xE2, CHR 0x80, CHR 0x85],
      [CHR 0xE2, CHR 0x80, CHR 0x86], [CHR 0xE2, CHR 0x80, CHR 0x87],
      [CHR 0xE2, CHR 0x80, CHR 0x88], [CHR 0xE2, CHR 0x80, CHR 0x89],
      [CHR 0xE2, CHR 0x80, CHR 0x8A],
      [CHR 0xE2, CHR 0x80, CHR 0xA8], [CHR 0xE2, CHR 0x80, CHR 0xA9],
      [CHR 0xE2, CHR 0x80, CHR 0xAF],
      [CHR 0xE2, CHR 0x81, CHR 0x9F],
      [CHR 0xE3, CHR 0x80, CHR 0x80],
      [CHR 0xEF, CHR 0xBB, CHR 0xBF]]"

text \<open>
  The text without the characters of \<open>seqs\<close> that it starts with. A white-space character
  starts at a byte that begins a character, so the bytes can be walked one character of
  \<open>seqs\<close> at a time.
\<close>

function strip_spaces :: "string list \<Rightarrow> string \<Rightarrow> string" where
  "strip_spaces seqs s =
     (case find (\<lambda>w. w \<noteq> [] \<and> take (length w) s = w) seqs of
        None \<Rightarrow> s
      | Some w \<Rightarrow> strip_spaces seqs (drop (length w) s))"
  by pat_completeness auto
termination
proof (relation "measure (\<lambda>(seqs, s). length s)")
  fix seqs :: "string list" and s w :: string
  assume "find (\<lambda>w. w \<noteq> [] \<and> take (length w) s = w) seqs = Some w"
  then have "w \<noteq> []" and "take (length w) s = w" by (auto simp: find_Some_iff)
  then have "s \<noteq> []" by auto
  with \<open>w \<noteq> []\<close> show "((seqs, drop (length w) s), (seqs, s)) \<in> measure (\<lambda>(seqs, s). length s)"
    by simp
qed simp

declare strip_spaces.simps [simp del]

text \<open>\<^verbatim>\<open>s.trim()\<close>: white space is removed at the start, and the same way at the end.\<close>

definition trim :: "string \<Rightarrow> string" where
  "trim s = rev (strip_spaces (map rev space_seqs) (rev (strip_spaces space_seqs s)))"

definition digit_val :: "char \<Rightarrow> nat" where
  "digit_val c = of_char c - of_char CHR ''0''"

definition digits_val :: "string \<Rightarrow> nat" where
  "digits_val ds = foldl (\<lambda>n c. 10 * n + digit_val c) 0 ds"

text \<open>\<^verbatim>\<open>s.replace(/,/g, '')\<close>\<close>

definition strip_commas :: "string \<Rightarrow> string" where
  "strip_commas s = filter (\<lambda>c. c \<noteq> CHR '','') s"

text \<open>\<^verbatim>\<open>[\d,]\<close> and \<^verbatim>\<open>[\d,.]\<close>, the character classes of the number patterns.\<close>

definition int_char :: "char \<Rightarrow> bool" where
  "int_char c = (is_digit c \<or> c = CHR '','')"

definition stat_char :: "char \<Rightarrow> bool" where
  "stat_char c = (is_digit c \<or> c = CHR '','' \<or> c = CHR ''.'')"

definition is_suffix :: "char \<Rightarrow> bool" where
  "is_suffix c = (c \<in> set ''kMG'')"

text \<open>
  The first match of \<^verbatim>\<open>-?[C]+\<close> in a text, for a character class \<open>C\<close> that does not
  contain the minus sign: the matched token and the text that follows it. The search
  goes left to right; at a position the minus sign is taken only when a class character
  follows it, and the run of class characters is as long as possible.
\<close>

fun match_signed :: "(char \<Rightarrow> bool) \<Rightarrow> string \<Rightarrow> (string \<times> string) option" where
  "match_signed C [] = None"
| "match_signed C (c # cs) =
     (if c = CHR ''-'' \<and> cs \<noteq> [] \<and> C (hd cs)
        then Some (c # takeWhile C cs, dropWhile C cs)
      else if C c
        then Some (takeWhile C (c # cs), dropWhile C (c # cs))
      else match_signed C cs)"

text \<open>\<^verbatim>\<open>[kMG]?\<close> at the head of the text that follows a token.\<close>

definition opt_suffix :: "string \<Rightarrow> char option" where
  "opt_suffix r = (case r of [] \<Rightarrow> None | c # _ \<Rightarrow> if is_suffix c then Some c else None)"

definition suffix_text :: "string \<Rightarrow> string" where
  "suffix_text r = (case opt_suffix r of None \<Rightarrow> [] | Some c \<Rightarrow> [c])"

text \<open>
  The first match of \<^verbatim>\<open>([\d,.]+)\/([\d,.]+[kMG]?)\<close>: its two groups. At a position
  the left run is maximal, so the pattern matches there exactly when that run is followed
  by a slash and at least one more class character.
\<close>

fun match_fraction :: "string \<Rightarrow> (string \<times> string) option" where
  "match_fraction [] = None"
| "match_fraction (c # cs) =
     (if stat_char c then
        (case dropWhile stat_char (c # cs) of
           [] \<Rightarrow> match_fraction cs
         | d # r \<Rightarrow>
             if d = CHR ''/'' \<and> r \<noteq> [] \<and> stat_char (hd r)
               then Some (takeWhile stat_char (c # cs),
                          takeWhile stat_char r @ suffix_text (dropWhile stat_char r))
             else match_fraction cs)
      else match_fraction cs)"

text \<open>
  \<^verbatim>\<open>parseInt(s)\<close> and \<^verbatim>\<open>parseFloat(s)\<close> on the tokens the patterns produce: an optional
  sign, then digits and periods. The longest numeric prefix is converted; with no digit
  at all the result is NaN. (White space, exponents and radix prefixes cannot occur in
  such a token.)
\<close>

definition split_sign :: "string \<Rightarrow> bool \<times> string" where
  "split_sign s =
     (case s of
        [] \<Rightarrow> (False, [])
      | c # r \<Rightarrow> if c = CHR ''-'' then (True, r) else if c = CHR ''+'' then (False, r) else (False, s))"

definition signed :: "bool \<Rightarrow> rat \<Rightarrow> rat" where
  "signed neg x = (if neg then - x else x)"

definition parseInt :: "string \<Rightarrow> jsnum" where
  "parseInt s =
     (let (neg, r) = split_sign s; ds = takeWhile is_digit r
      in if ds = [] then NaN else round_double (signed neg (of_nat (digits_val ds))))"

definition parseFloat :: "string \<Rightarrow> jsnum" where
  "parseFloat s =
     (let (neg, r) = split_sign s;
          ip = takeWhile is_digit r;
          fp = (case dropWhile is_digit r of
                  [] \<Rightarrow> []
                | d # r' \<Rightarrow> if d = CHR ''.'' then takeWhile is_digit r' else [])
      in if ip = [] \<and> fp = [] then NaN
         else round_double
                (signed neg (of_nat (digits_val ip) + of_nat (digits_val fp) / 10 ^ length fp)))"

section \<open>The number and unit parser\<close>

text \<open>
  \<^verbatim>\<open>extractNumber(text)\<close>:
  \<^verbatim>\<open>if (!text) return null; const match = text.match(/(-?[\d,]+)/);\<close>
  \<^verbatim>\<open>if (match) return parseInt(match[1].replace(/,/g, '')); return null;\<close>
\<close>

definition extractNumber :: "string \<Rightarrow> jsval" where
  "extractNumber text =
     (if text = [] then JNull
      else (case match_signed int_char text of
              Some (tok, _) \<Rightarrow> JNum (parseInt (strip_commas tok))
            | None \<Rightarrow> JNull))"

text \<open>
  \<^verbatim>\<open>parseStatNumber(text)\<close>: the pattern is \<^verbatim>\<open>/(-?[\d,.]+)([kMG])?/\<close>, applied to the
  trimmed text; the suffix multiplies by 1000, 1000000 or 1000000000.
\<close>

definition parseStatNumber :: "string \<Rightarrow> jsval" where
  "parseStatNumber text0 =
     (if text0 = [] then JNull
      else (let text = trim text0 in
            case match_signed stat_char text of
              None \<Rightarrow> JNull
            | Some (tok, r) \<Rightarrow>
                (let num = parseFloat (strip_commas tok); suffix = opt_suffix r
                 in if suffix = Some CHR ''k'' then JNum (js_mult num (Fin 1000))
                    else if suffix = Some CHR ''M'' then JNum (js_mult num (Fin 1000000))
                    else if suffix = Some CHR ''G'' then JNum (js_mult num (Fin 1000000000))
                    else JNum num)))"

text \<open>
  \<^verbatim>\<open>extractStatValue(text)\<close>: first the fraction pattern
  \<^verbatim>\<open>/([\d,.]+)\/([\d,.]+[kMG]?)/\<close>, then the single pattern \<^verbatim>\<open>/(-?[\d,.]+[kMG]?)/\<close>.
\<close>

definition extractStatValue :: "string \<Rightarrow> jsval" where
  "extractStatValue text =
     (if text = [] then JNull
      else (case match_fraction text of
              Some (a, b) \<Rightarrow>
                JObj [(''current'', parseStatNumber a), (''max'', parseStatNumber b)]
            | None \<Rightarrow>
                (case match_signed stat_char text of
                   Some (tok, r) \<Rightarrow> parseStatNumber (tok @ suffix_text r)
                 | None \<Rightarrow> JNull)))"

section \<open>The scraper object and its environment\<close>

text \<open>
  The fields of \<^verbatim>\<open>FragileCityScraper\<close> that the modelled methods read or write. The last
  three fields are not fields of the class: they log what the object does to the outside
  world (each request sent, each delay waited for, the number of clock readings), so that
  statements about attempts and delays can be made.
\<close>

datatype js_error = JsError (message: string)

text \<open>
  An \<^verbatim>\<open>Error\<close> object as a value, and \<^verbatim>\<open>error.message\<close> for a caught value of any kind:
  reading a property of \<^verbatim>\<open>null\<close> or \<^verbatim>\<open>undefined\<close> throws a \<^verbatim>\<open>TypeError\<close> (the wording is that
  of the V8 engine), an object gives the property, and any other value has none.
\<close>

definition thrown :: "js_error \<Rightarrow> jsval" where
  "thrown e = JObj [(''message'', JStr (message e))]"

definition error_message :: "jsval \<Rightarrow> js_error + jsval" where
  "error_message v =
     (case v of
        JNull \<Rightarrow>
          Inl (JsError (''Cannot read properties of null (reading '' @ [CHR 0x27] @ ''message''
                        @ [CHR 0x27] @ '')''))
      | JUndefined \<Rightarrow>
          Inl (JsError (''Cannot read properties of undefined (reading '' @ [CHR 0x27]
                        @ ''message'' @ [CHR 0x27] @ '')''))
      | JObj ob \<Rightarrow> Inr (get_prop ob ''message'')
      | _ \<Rightarrow> Inr JUndefined)"

record warning =
  w_type :: string
  w_message :: "jsval list"
  w_context :: obj
  w_timestamp :: string

record scraper =
  baseUrl :: string
  version :: string
  errors :: "jsval list"
  warnings :: "warning list"
  maxRetries :: nat
  retryDelay :: nat
  concurrency :: nat
  requestDelay :: nat
  requests :: "string list"
  sleeps :: "nat list"
  clock_reads :: nat

text \<open>
  What a detail page yields before the building sections are read (lines 394-545 of the
  scraper, the selector queries of the HTML library): the header cells, stats, job levels,
  sanctions and resources as already extracted values, and for each \<^verbatim>\<open>h3.text-l\<close> heading
  its text and the text of the first green count cell beside it, if there is one.
\<close>

record city_page =
  pg_region :: jsval
  pg_year :: jsval
  pg_day :: jsval
  pg_season :: jsval
  pg_citizens :: jsval
  pg_stats :: obj
  pg_jobLevels :: "jsval list"
  pg_sanctions :: "jsval list"
  pg_resources :: obj
  pg_sections :: "(string \<times> string option) list"

text \<open>
  The environment: the outcome of the \<open>n\<close>-th HTTP request the process sends (by address),
  the page extraction, which may throw, the text of the \<open>n\<close>-th clock reading, and the
  case mapping of the builtin \<^verbatim>\<open>String.prototype.toLowerCase\<close>, which covers all of
  Unicode and is not written out here.
\<close>

record 'r env =
  http_get :: "nat \<Rightarrow> string \<Rightarrow> js_error + 'r"
  load_city_page :: "'r \<Rightarrow> js_error + city_page"
  iso_time :: "nat \<Rightarrow> string"
  toLowerCase :: "string \<Rightarrow> string"

text \<open>\<^verbatim>\<open>options.x || d\<close> for a count: an absent option and 0 are both falsy.\<close>

definition or_default :: "nat option \<Rightarrow> nat \<Rightarrow> nat" where
  "or_default v d = (case v of None \<Rightarrow> d | Some n \<Rightarrow> if n = 0 then d else n)"

record options =
  opt_maxRetries :: "nat option"
  opt_retryDelay :: "nat option"
  opt_concurrency :: "nat option"
  opt_requestDelay :: "nat option"

definition constructor :: "options \<Rightarrow> scraper" where
  "constructor opts =
     \<lparr>baseUrl = ''https://fragile.city'', version = ''1.0.0'', errors = [], warnings = [],
      maxRetries = or_default (opt_maxRetries opts) 3,
      retryDelay = or_default (opt_retryDelay opts) 1000,
      concurrency = or_default (opt_concurrency opts) 5,
      requestDelay = or_default (opt_requestDelay opts) 100,
      requests = [], sleeps = [], clock_reads = 0\<rparr>"

definition sleep :: "nat \<Rightarrow> scraper \<Rightarrow> scraper" where
  "sleep ms st = st\<lparr>sleeps := sleeps st @ [ms]\<rparr>"

definition now :: "'r env \<Rightarrow> scraper \<Rightarrow> string \<times> scraper" where
  "now env st = (iso_time env (clock_reads st), st\<lparr>clock_reads := clock_reads st + 1\<rparr>)"

text \<open>
  \<^verbatim>\<open>addWarning(type, message, context)\<close>. A message is a template literal; it is kept as
  the sequence of its pieces, the interpolated values unrendered.
\<close>

definition addWarning :: "'r env \<Rightarrow> string \<Rightarrow> jsval list \<Rightarrow> obj \<Rightarrow> scraper \<Rightarrow> scraper" where
  "addWarning env ty msg ctx st =
     (let (ts, st1) = now env st
      in st1\<lparr>warnings := warnings st1 @
               [\<lparr>w_type = ty, w_message = msg, w_context = ctx, w_timestamp = ts\<rparr>]\<rparr>)"

section \<open>The record validators\<close>

fun join :: "string \<Rightarrow> string list \<Rightarrow> string" where
  "join sep [] = []"
| "join sep [x] = x"
| "join sep (x # xs) = x @ sep @ join sep xs"

definition absent :: "jsval \<Rightarrow> bool" where
  "absent v = (v = JNull \<or> v = JUndefined)"

text \<open>\<^verbatim>\<open>typeof v !== 'number' || v < 0\<close>\<close>

definition not_count :: "jsval \<Rightarrow> bool" where
  "not_count v = (case v of JNum n \<Rightarrow> num_negative n | _ \<Rightarrow> True)"

text \<open>\<^verbatim>\<open>validateCity(city)\<close>: the verdict and the scraper with the warnings it queued.\<close>

definition validateCity :: "'r env \<Rightarrow> obj \<Rightarrow> scraper \<Rightarrow> bool \<times> scraper" where
  "validateCity env city st =
     (let requiredFields = [''name'', ''url'', ''pollution'', ''citizens''];
          missing = filter (\<lambda>field. absent (get_prop city field)) requiredFields
      in if missing \<noteq> [] then
           (False, addWarning env ''InvalidCityData''
                     [JStr (''Missing required fields: '' @ join '', '' missing)]
                     [(''city'', get_prop city ''name'')] st)
         else if not_count (get_prop city ''citizens'') then
           (True, addWarning env ''InvalidCityData''
                    [JStr ''Invalid citizens count: '', get_prop city ''citizens'']
                    [(''city'', get_prop city ''name'')] st)
         else (True, st))"

text \<open>
  A row of the city list as \<^verbatim>\<open>scrapeCityList\<close> builds it (lines 282-290), and the same
  row as the object the validator looks into.
\<close>

record city_listing =
  name :: string
  url :: string
  pollution :: jsval
  citizens :: jsval
  emailVerified :: bool
  isPatron :: bool
  hasContributed :: bool

definition listing_obj :: "city_listing \<Rightarrow> obj" where
  "listing_obj c =
     [(''name'', JStr (name c)), (''url'', JStr (url c)), (''pollution'', pollution c),
      (''citizens'', citizens c), (''emailVerified'', JBool (emailVerified c)),
      (''isPatron'', JBool (isPatron c)), (''hasContributed'', JBool (hasContributed c))]"

text \<open>
  The end of the per-row callback of \<^verbatim>\<open>scrapeCityList\<close> (lines 281-297):
  \<^verbatim>\<open>if (cityName) { const cityData = {...}; if (this.validateCity(cityData)) cities.push(cityData); }\<close>
\<close>

definition scrapeCityList_row ::
  "'r env \<Rightarrow> city_listing \<Rightarrow> city_listing list \<times> scraper \<Rightarrow> city_listing list \<times> scraper" where
  "scrapeCityList_row env cityData acc =
     (let (cities, st) = acc
      in if name cityData \<noteq> [] then
           (let (ok, st1) = validateCity env (listing_obj cityData) st
            in if ok then (cities @ [cityData], st1) else (cities, st1))
         else (cities, st))"

section \<open>Transport\<close>

text \<open>
  \<^verbatim>\<open>fetchWithRetry(url, options = {}, retryCount = 0)\<close>: one request; when it fails and
  \<^verbatim>\<open>retryCount < this.maxRetries\<close>, wait \<^verbatim>\<open>this.retryDelay * Math.pow(2, retryCount)\<close> and
  call itself with \<^verbatim>\<open>retryCount + 1\<close>; otherwise \<^verbatim>\<open>throw error\<close>. (The request options only
  add headers and are left out.)
\<close>

function fetchWithRetry ::
  "'r env \<Rightarrow> string \<Rightarrow> nat \<Rightarrow> scraper \<Rightarrow> (js_error + 'r) \<times> scraper" where
  "fetchWithRetry env address retryCount st =
     (let st1 = st\<lparr>requests := requests st @ [address]\<rparr>
      in case http_get env (length (requests st)) address of
           Inr response \<Rightarrow> (Inr response, st1)
         | Inl error \<Rightarrow>
             if retryCount < maxRetries st then
               (let delay = retryDelay st * 2 ^ retryCount
                in fetchWithRetry env address (retryCount + 1) (sleep delay st1))
             else (Inl error, st1))"
  by pat_completeness auto
termination
  by (relation "measure (\<lambda>(env, address, retryCount, st). maxRetries st - retryCount)")
     (auto simp: sleep_def)

declare fetchWithRetry.simps [simp del]

section \<open>The batch scheduler\<close>

text \<open>
  An operation handed to \<^verbatim>\<open>processBatch\<close> is an async function: run on an item it
  resolves to a value or rejects with a value (anything can be thrown), and it may change
  the scraper on the way. The operations of one window run interleaved at their
  suspension points; the model runs them one after the other in item order. The entries
  pushed on \<^verbatim>\<open>errors\<close> arrive in the order in which the operations reject, which is not
  fixed by the items: the collection is kept as a multiset, without an order.
\<close>

datatype outcome = Resolved jsval | Rejected jsval

record 'a batch_error =
  item :: 'a
  error :: jsval

record 'a batch_result =
  results :: "jsval list"
  batch_errors :: "'a batch_error multiset"

text \<open>
  One window, lines 46-55: \<^verbatim>\<open>batch.map(async (item) => { try { return await processFn(item); }\<close>
  \<^verbatim>\<open>catch (error) { errors.push({ item, error: error.message }); return null; } })\<close>, then
  \<^verbatim>\<open>Promise.all\<close>. The result is \<^verbatim>\<open>batchResults\<close>, the entries pushed on \<^verbatim>\<open>errors\<close>, and
  the error with which \<^verbatim>\<open>Promise.all\<close> rejects, if it does: when \<^verbatim>\<open>error.message\<close> throws
  inside the handler, nothing is pushed and the promise of that item rejects. Every
  operation of the window has run by then. (Of several such errors the first in time
  wins; the model takes the first in item order.)
\<close>

fun run_window ::
  "('a \<Rightarrow> scraper \<Rightarrow> outcome \<times> scraper) \<Rightarrow> 'a list \<Rightarrow> scraper
     \<Rightarrow> (jsval list \<times> 'a batch_error multiset \<times> js_error option) \<times> scraper" where
  "run_window processFn [] st = (([], {#}, None), st)"
| "run_window processFn (x # xs) st =
     (case processFn x st of
        (Resolved r, st1) \<Rightarrow>
          (case run_window processFn xs st1 of
             ((rs, es, rejection), st2) \<Rightarrow> ((r # rs, es, rejection), st2))
      | (Rejected v, st1) \<Rightarrow>
          (case run_window processFn xs st1 of
             ((rs, es, rejection), st2) \<Rightarrow>
               (case error_message v of
                  Inr m \<Rightarrow> ((JNull # rs, add_mset \<lparr>item = x, error = m\<rparr> es, rejection), st2)
                | Inl e \<Rightarrow> ((rs, es, Some e), st2))))"

text \<open>\<^verbatim>\<open>items.slice(i, i + concurrency)\<close> for indices that are not negative.\<close>

definition slice :: "'a list \<Rightarrow> nat \<Rightarrow> nat \<Rightarrow> 'a list" where
  "slice xs i j = take (j - i) (drop i xs)"

text \<open>
  The loop \<^verbatim>\<open>for (let i = 0; i < items.length; i += concurrency)\<close>. With a concurrency
  of 0 the index never advances, so the loop is a partial function: \<open>None\<close> stands for a
  call that never returns. A call that returns either rejects, with the error of the
  \<^verbatim>\<open>await Promise.all\<close> that threw (\<open>Inl\<close>), or resolves to \<^verbatim>\<open>{ results, errors }\<close> (\<open>Inr\<close>).
\<close>

partial_function (option) batch_loop ::
  "('a \<Rightarrow> scraper \<Rightarrow> outcome \<times> scraper) \<Rightarrow> nat \<Rightarrow> 'a list \<Rightarrow> nat
     \<Rightarrow> 'a batch_result \<Rightarrow> scraper \<Rightarrow> ((js_error + 'a batch_result) \<times> scraper) option" where
  "batch_loop processFn conc items i acc st =
     (if i < length items then
        (case run_window processFn (slice items i (i + conc)) st of
           ((batchResults, errs, rejection), st1) \<Rightarrow>
             (case rejection of
                Some e \<Rightarrow> Some (Inl e, st1)
              | None \<Rightarrow>
                  batch_loop processFn conc items (i + conc)
                    \<lparr>results = results acc @ filter (\<lambda>r. r \<noteq> JNull) batchResults,
                     batch_errors = batch_errors acc + errs\<rparr>
                    (if i + conc < length items then sleep (requestDelay st1) st1 else st1)))
      else Some (Inr acc, st))"

text \<open>\<^verbatim>\<open>processBatch(items, processFn, concurrency = this.concurrency)\<close>\<close>

definition processBatch ::
  "'a list \<Rightarrow> ('a \<Rightarrow> scraper \<Rightarrow> outcome \<times> scraper) \<Rightarrow> nat option \<Rightarrow> scraper
     \<Rightarrow> ((js_error + 'a batch_result) \<times> scraper) option" where
  "processBatch items processFn conc st =
     batch_loop processFn (case conc of None \<Rightarrow> concurrency st | Some c \<Rightarrow> c) items 0
       \<lparr>results = [], batch_errors = {#}\<rparr> st"

section \<open>The city detail extractor\<close>

text \<open>
  \<^verbatim>\<open>s.replace(/\s+/g, '_')\<close>: each run of white space becomes one underscore. No byte
  inside a longer character begins a white-space character, so the text can be walked
  byte by byte.
\<close>

function underscore_spaces :: "string \<Rightarrow> string" where
  "underscore_spaces [] = []"
| "underscore_spaces (c # cs) =
     (if strip_spaces space_seqs (c # cs) = c # cs then c # underscore_spaces cs
      else CHR ''_'' # underscore_spaces (strip_spaces space_seqs (c # cs)))"
  by pat_completeness auto
termination
proof (relation "measure length")
  fix c :: char and cs :: string
  assume changed: "strip_spaces space_seqs (c # cs) \<noteq> c # cs"
  have shorter: "length (strip_spaces seqs s) \<le> length s" for seqs s
  proof (induction seqs s rule: strip_spaces.induct)
    case (1 seqs s)
    show ?case
    proof (cases "find (\<lambda>w. w \<noteq> [] \<and> take (length w) s = w) seqs")
      case None
      then show ?thesis by (simp add: strip_spaces.simps [of seqs s])
    next
      case (Some w)
      from 1 [OF Some] have "length (strip_spaces seqs (drop (length w) s)) \<le> length s" by simp
      with Some show ?thesis by (simp add: strip_spaces.simps [of seqs s])
    qed
  qed
  obtain w where w: "find (\<lambda>w. w \<noteq> [] \<and> take (length w) (c # cs) = w) space_seqs = Some w"
    using changed by (cases "find (\<lambda>w. w \<noteq> [] \<and> take (length w) (c # cs) = w) space_seqs")
      (simp_all add: strip_spaces.simps [of space_seqs "c # cs"])
  then have "w \<noteq> []" by (auto simp: find_Some_iff)
  then have "length (drop (length w) (c # cs)) < length (c # cs)" by simp
  moreover have "strip_spaces space_seqs (c # cs) = strip_spaces space_seqs (drop (length w) (c # cs))"
    using w by (simp add: strip_spaces.simps [of space_seqs "c # cs"])
  ultimately have "length (strip_spaces space_seqs (c # cs)) < length (c # cs)"
    using shorter [of space_seqs "drop (length w) (c # cs)"] by simp
  then show "(strip_spaces space_seqs (c # cs), c # cs) \<in> measure length" by simp
qed simp_all

text \<open>\<^verbatim>\<open>buildingName.toLowerCase().replace(/\s+/g, '_')\<close>\<close>

definition cleanName :: "'r env \<Rightarrow> string \<Rightarrow> string" where
  "cleanName env buildingName = underscore_spaces (toLowerCase env buildingName)"

text \<open>
  \<^verbatim>\<open>buildings[k] = v\<close> for a number \<open>v\<close>, on the object literal of line 548. The key
  \<^verbatim>\<open>__proto__\<close> names the accessor that the object inherits from \<^verbatim>\<open>Object.prototype\<close>; its
  setter ignores a value that is not an object, so the assignment creates no own
  property. Any other key is written.
\<close>

definition assign_number :: "obj \<Rightarrow> string \<Rightarrow> jsval \<Rightarrow> obj" where
  "assign_number ob k v = (if k = ''__proto__'' then ob else set_prop ob k v)"

text \<open>
  The body of the loop over the building headings, lines 551-574. A heading with a green
  cell stores the number read from it, unless none is read; a heading without one
  stores 0.
\<close>

definition building_step :: "'r env \<Rightarrow> obj \<Rightarrow> string \<times> string option \<Rightarrow> obj" where
  "building_step env buildings sec =
     (let buildingName = trim (fst sec)
      in if buildingName \<noteq> [] then
           (case snd sec of
              Some cellText \<Rightarrow>
                (let count = extractNumber (trim cellText)
                 in if count \<noteq> JNull
                      then assign_number buildings (cleanName env buildingName) count
                    else buildings)
            | None \<Rightarrow> assign_number buildings (cleanName env buildingName) (JNum (Fin 0)))
         else buildings)"

definition extractBuildings :: "'r env \<Rightarrow> (string \<times> string option) list \<Rightarrow> obj" where
  "extractBuildings env secs = foldl (building_step env) [] secs"

text \<open>
  \<^verbatim>\<open>encodeURIComponent\<close>: an unreserved character stays, any other byte of the UTF-8
  encoding is written as a percent sign and two hexadecimal digits, and a lone surrogate
  anywhere in the text makes the builtin throw a \<^verbatim>\<open>URIError\<close>.
\<close>

definition unreserved :: "char \<Rightarrow> bool" where
  "unreserved c =
     (c \<in> set ''ABCDEFGHIJKLMNOPQRSTUVWXYZabcdefghijklmnopqrstuvwxyz0123456789-_.!~*()''
      \<or> c = CHR 0x27)"

definition hex_digit :: "nat \<Rightarrow> char" where
  "hex_digit n = ''0123456789ABCDEF'' ! (n mod 16)"

fun lone_surrogate :: "string \<Rightarrow> bool" where
  "lone_surrogate (a # b # cs) =
     (a = CHR 0xED \<and> 0xA0 \<le> (of_char b :: nat) \<and> (of_char b :: nat) \<le> 0xBF
      \<or> lone_surrogate (b # cs))"
| "lone_surrogate cs = False"

definition encodeURIComponent :: "string \<Rightarrow> js_error + string" where
  "encodeURIComponent s =
     (if lone_surrogate s then Inl (JsError ''URI malformed'')
      else Inr (concat (map (\<lambda>c. if unreserved c then [c]
                                   else [CHR ''%'', hex_digit (of_char c div 16),
                                         hex_digit (of_char c)]) s)))"

text \<open>
  Truthiness, and the two emptiness tests of \<^verbatim>\<open>validateCityDetails\<close> on a truthy value:
  \<^verbatim>\<open>Object.keys(v).length === 0\<close> (a number or a boolean has no keys, a string has one
  per code unit) and \<^verbatim>\<open>v.length === 0\<close> (an object has the length it holds under that key,
  a number or a boolean has none).
\<close>

fun truthy :: "jsval \<Rightarrow> bool" where
  "truthy JUndefined = False"
| "truthy JNull = False"
| "truthy (JBool b) = b"
| "truthy (JNum n) = (n \<noteq> NaN \<and> n \<noteq> Fin 0)"
| "truthy (JStr s) = (s \<noteq> [])"
| "truthy (JArr xs) = True"
| "truthy (JObj kvs) = True"

fun no_keys :: "jsval \<Rightarrow> bool" where
  "no_keys (JArr xs) = (xs = [])"
| "no_keys (JObj kvs) = (kvs = [])"
| "no_keys (JStr s) = (s = [])"
| "no_keys v = True"

fun zero_length :: "jsval \<Rightarrow> bool" where
  "zero_length (JArr xs) = (xs = [])"
| "zero_length (JStr s) = (s = [])"
| "zero_length (JObj kvs) = (get_prop kvs ''length'' = JNum (Fin 0))"
| "zero_length v = False"

text \<open>\<^verbatim>\<open>validateCityDetails(cityData)\<close>\<close>

definition warn_if :: "'r env \<Rightarrow> bool \<Rightarrow> string \<Rightarrow> jsval list \<Rightarrow> obj \<Rightarrow> scraper \<Rightarrow> scraper" where
  "warn_if env b ty msg ctx st = (if b then addWarning env ty msg ctx st else st)"

definition validateCityDetails :: "'r env \<Rightarrow> obj \<Rightarrow> scraper \<Rightarrow> bool \<times> scraper" where
  "validateCityDetails env cityData st =
     (if \<not> truthy (get_prop cityData ''name'') then
        (False, addWarning env ''InvalidCityDetails'' [JStr ''City name is missing''] [] st)
      else
        (let ctx = [(''city'', get_prop cityData ''name'')];
             stats = get_prop cityData ''stats'';
             jobLevels = get_prop cityData ''jobLevels'';
             resources = get_prop cityData ''resources'';
             buildings = get_prop cityData ''buildings'';
             st1 = warn_if env (\<not> truthy stats \<or> no_keys stats)
                     ''IncompleteCityDetails'' [JStr ''No stats data found''] ctx st;
             st2 = warn_if env (\<not> truthy jobLevels \<or> zero_length jobLevels)
                     ''IncompleteCityDetails'' [JStr ''No job levels data found''] ctx st1;
             st3 = warn_if env (\<not> truthy resources \<or> no_keys resources)
                     ''IncompleteCityDetails'' [JStr ''No resources data found''] ctx st2;
             st4 = warn_if env (\<not> truthy buildings \<or> no_keys buildings)
                     ''IncompleteCityDetails'' [JStr ''No buildings data found''] ctx st3;
             st5 = warn_if env (get_prop cityData ''citizens'' \<noteq> JNull
                                 \<and> not_count (get_prop cityData ''citizens''))
                     ''InvalidCityDetails''
                     [JStr ''Invalid citizens: '', get_prop cityData ''citizens''] ctx st4
         in (True, st5)))"

text \<open>
  The template literal \<^verbatim>\<open>`${this.baseUrl}/city/${encodeURIComponent(cityName)}`\<close>, which
  throws when the encoding does.
\<close>

definition city_url :: "scraper \<Rightarrow> string \<Rightarrow> js_error + string" where
  "city_url st cityName =
     (case encodeURIComponent cityName of
        Inl e \<Rightarrow> Inl e
      | Inr encoded \<Rightarrow> Inr (baseUrl st @ ''/city/'' @ encoded))"

text \<open>The \<^verbatim>\<open>try\<close> block of \<^verbatim>\<open>scrapeCity(cityName)\<close>, lines 388-593.\<close>

definition scrapeCity_try ::
  "'r env \<Rightarrow> string \<Rightarrow> scraper \<Rightarrow> (js_error + jsval) \<times> scraper" where
  "scrapeCity_try env cityName st =
     (case city_url st cityName of
        Inl e \<Rightarrow> (Inl e, st)
      | Inr address \<Rightarrow>
          (case fetchWithRetry env address 0 st of
             (Inl e, st1) \<Rightarrow> (Inl e, st1)
           | (Inr response, st1) \<Rightarrow>
               (case load_city_page env response of
                  Inl e \<Rightarrow> (Inl e, st1)
                | Inr page \<Rightarrow>
                    (let (ts, st2) = now env st1;
                         cityData =
                           [(''name'', JStr cityName),
                            (''url'', JStr address),
                            (''region'', pg_region page),
                            (''year'', pg_year page),
                            (''day'', pg_day page),
                            (''season'', pg_season page),
                            (''citizens'', pg_citizens page),
                            (''stats'', JObj (pg_stats page)),
                            (''jobLevels'', JArr (pg_jobLevels page)),
                            (''resources'', JObj (pg_resources page)),
                            (''buildings'', JObj (extractBuildings env (pg_sections page))),
                            (''sanctionedBy'', JArr (pg_sanctions page)),
                            (''scrapedAt'', JStr ts)];
                         (_, st3) = validateCityDetails env cityData st2
                     in (Inr (JObj cityData), st3)))))"

text \<open>
  \<^verbatim>\<open>scrapeCity(cityName)\<close>: the \<^verbatim>\<open>catch\<close> block (lines 595-604) logs the error on
  \<^verbatim>\<open>this.errors\<close> and builds the four-field record. The record's \<^verbatim>\<open>url\<close> is the template
  literal of the \<^verbatim>\<open>try\<close> block once more (line 600), evaluated outside any \<^verbatim>\<open>try\<close>: when it
  throws, the call rejects with that error, after the entry was logged and before the
  clock is read for \<^verbatim>\<open>scrapedAt\<close>.
\<close>

definition scrapeCity :: "'r env \<Rightarrow> string \<Rightarrow> scraper \<Rightarrow> outcome \<times> scraper" where
  "scrapeCity env cityName st =
     (case scrapeCity_try env cityName st of
        (Inr cityData, st1) \<Rightarrow> (Resolved cityData, st1)
      | (Inl e, st1) \<Rightarrow>
          (let (ts1, st2) = now env st1;
               st3 = st2\<lparr>errors := errors st2 @
                        [JObj [(''type'', JStr ''city''), (''city'', JStr cityName),
                               (''message'', JStr (message e)), (''timestamp'', JStr ts1)]]\<rparr>
           in case city_url st3 cityName of
                Inl e2 \<Rightarrow> (Rejected (thrown e2), st3)
              | Inr address \<Rightarrow>
                  (let (ts2, st4) = now env st3
                   in (Resolved (JObj [(''name'', JStr cityName),
                                       (''url'', JStr address),
                                       (''error'', JStr (message e)),
                                       (''scrapedAt'', JStr ts2)]), st4))))"

section \<open>The run orchestrator\<close>

text \<open>
  Lines 706-712 of \<^verbatim>\<open>runFullScrape\<close>:
  \<^verbatim>\<open>const activeCities = new Set(cityData.cities.map(c => c.name));\<close>
  \<^verbatim>\<open>const warsWithValidation = wars.map(war => ({ ...war, attackerActive: ..., ... }));\<close>
\<close>

definition activeCities :: "city_listing list \<Rightarrow> jsval set" where
  "activeCities cities = set (map (\<lambda>c. JStr (name c)) cities)"

definition enrichWar :: "jsval set \<Rightarrow> obj \<Rightarrow> obj" where
  "enrichWar active war =
     set_prop
       (set_prop
          (set_prop war ''attackerActive'' (JBool (get_prop war ''attacker'' \<in> active)))
          ''defenderActive'' (JBool (get_prop war ''defender'' \<in> active)))
       ''bothActive''
       (JBool (get_prop war ''attacker'' \<in> active \<and> get_prop war ''defender'' \<in> active))"

definition warsWithValidation :: "city_listing list \<Rightarrow> obj list \<Rightarrow> obj list" where
  "warsWithValidation cities wars = map (enrichWar (activeCities cities)) wars"

text \<open>
  Lines 727-749: the batch over the listed cities and the counters of the run metadata
  computed from it; when \<^verbatim>\<open>processBatch\<close> rejects, so does this part of the run. (The
  duration fields of the metadata are readings of real time and are left out.)
\<close>

record metadata =
  totalCities :: nat
  successfulScrapes :: nat
  failedScrapes :: nat
  md_concurrency :: nat
  md_errors :: "jsval list"
  md_warnings :: "warning list"

record details_phase =
  cityDetails :: "jsval list"
  cityErrors :: "city_listing batch_error multiset"
  run_metadata :: metadata

definition scrapeDetails ::
  "'r env \<Rightarrow> city_listing list \<Rightarrow> scraper \<Rightarrow> ((js_error + details_phase) \<times> scraper) option" where
  "scrapeDetails env cities st =
     (case processBatch cities (\<lambda>city. scrapeCity env (name city)) (Some (concurrency st)) st of
        None \<Rightarrow> None
      | Some (Inl e, st1) \<Rightarrow> Some (Inl e, st1)
      | Some (Inr r, st1) \<Rightarrow>
          Some (Inr \<lparr>cityDetails = results r, cityErrors = batch_errors r,
                     run_metadata =
                       \<lparr>totalCities = length cities,
                        successfulScrapes = length (results r),
                        failedScrapes = size (batch_errors r),
                        md_concurrency = concurrency st1,
                        md_errors = errors st1,
                        md_warnings = warnings st1\<rparr>\<rparr>, st1))"

section \<open>Reference notions for the statements\<close>

text \<open>
  What one operation contributes to the two collections of \<^verbatim>\<open>processBatch\<close>, in the
  words of the specification: a resolved value that is not \<^verbatim>\<open>null\<close> is kept, a rejection
  is recorded as \<^verbatim>\<open>{item, error}\<close> with the message of the rejected value.
\<close>

definition kept :: "outcome \<Rightarrow> jsval list" where
  "kept out = (case out of Resolved v \<Rightarrow> if v \<noteq> JNull then [v] else [] | Rejected v \<Rightarrow> [])"

definition caught :: "'a \<Rightarrow> outcome \<Rightarrow> 'a batch_error multiset" where
  "caught x out =
     (case out of
        Resolved v \<Rightarrow> {#}
      | Rejected v \<Rightarrow>
          (case error_message v of Inr m \<Rightarrow> {#\<lparr>item = x, error = m\<rparr>#} | Inl e \<Rightarrow> {#}))"

definition kept_all :: "outcome list \<Rightarrow> jsval list" where
  "kept_all outs = concat (map kept outs)"

definition caught_all :: "'a list \<Rightarrow> outcome list \<Rightarrow> 'a batch_error multiset" where
  "caught_all xs outs = sum_list (map (\<lambda>(x, out). caught x out) (zip xs outs))"

text \<open>\<open>out\<close> is an outcome of the operation on \<open>x\<close>, in some state of the scraper.\<close>

definition outcome_of :: "('a \<Rightarrow> scraper \<Rightarrow> outcome \<times> scraper) \<Rightarrow> 'a \<Rightarrow> outcome \<Rightarrow> bool" where
  "outcome_of processFn x out = (\<exists>s. fst (processFn x s) = out)"

text \<open>
  An object has an own key; and a building section overwrites the entry of a key: it has
  a heading that normalises to the key and a count cell from which a number is read.
\<close>

definition has_key :: "obj \<Rightarrow> string \<Rightarrow> bool" where
  "has_key ob k = (k \<in> fst ` set ob)"

definition overwrites :: "'r env \<Rightarrow> string \<Rightarrow> string \<times> string option \<Rightarrow> bool" where
  "overwrites env key sec =
     (trim (fst sec) \<noteq> [] \<and> cleanName env (trim (fst sec)) = key
      \<and> (case snd sec of None \<Rightarrow> False | Some cellText \<Rightarrow> extractNumber (trim cellText) \<noteq> JNull))"

text \<open>
  The two object literals of the \<^verbatim>\<open>catch\<close> block of \<^verbatim>\<open>scrapeCity\<close>: the entry pushed on
  \<^verbatim>\<open>this.errors\<close> and the record returned, the failed variant of a city detail. The keys
  of a success record. And what it means for a value to be the record of a listed city
  at the end of a run: it carries the city's name and is a success record, or a failed
  record whose error entry is in the error list.
\<close>

definition error_entry :: "string \<Rightarrow> string \<Rightarrow> string \<Rightarrow> jsval" where
  "error_entry cityName msg ts =
     JObj [(''type'', JStr ''city''), (''city'', JStr cityName), (''message'', JStr msg),
           (''timestamp'', JStr ts)]"

definition failed_record :: "string \<Rightarrow> string \<Rightarrow> string \<Rightarrow> string \<Rightarrow> jsval" where
  "failed_record cityName address msg ts =
     JObj [(''name'', JStr cityName), (''url'', JStr address), (''error'', JStr msg),
           (''scrapedAt'', JStr ts)]"

definition success_keys :: "string list" where
  "success_keys =
     [''name'', ''url'', ''region'', ''year'', ''day'', ''season'', ''citizens'', ''stats'',
      ''jobLevels'', ''resources'', ''buildings'', ''sanctionedBy'', ''scrapedAt'']"

definition city_record :: "city_listing \<Rightarrow> jsval \<Rightarrow> scraper \<Rightarrow> bool" where
  "city_record c v st =
     (\<exists>ob. v = JObj ob \<and> get_prop ob ''name'' = JStr (name c)
        \<and> (map fst ob = success_keys
           \<or> (\<exists>address msg ts ts'. v = failed_record (name c) address msg ts
                 \<and> error_entry (name c) msg ts' \<in> set (errors st))))"

section \<open>Sample inputs\<close>

definition default_options :: options where
  "default_options =
     \<lparr>opt_maxRetries = None, opt_retryDelay = None, opt_concurrency = None,
      opt_requestDelay = None\<rparr>"

text \<open>The case mapping on the letters A to Z, which is all the builtin does to ASCII text.\<close>

definition ascii_lower :: "string \<Rightarrow> string" where
  "ascii_lower s =
     map (\<lambda>c. case map_of (zip ''ABCDEFGHIJKLMNOPQRSTUVWXYZ'' ''abcdefghijklmnopqrstuvwxyz'') c of
                None \<Rightarrow> c
              | Some l \<Rightarrow> l) s"

text \<open>A server that refuses every request.\<close>

definition env_down :: "unit env" where
  "env_down =
     \<lparr>http_get = (\<lambda>n a. Inl (JsError ''socket hang up'')),
      load_city_page = (\<lambda>r. Inl (JsError ''no page'')),
      iso_time = (\<lambda>n. ''2024-01-01T00:00:00.000Z''),
      toLowerCase = ascii_lower\<rparr>"

text \<open>
  An operation that resolves to \<^verbatim>\<open>null\<close>, one that rejects on the item 2 with an \<^verbatim>\<open>Error\<close>,
  and one that rejects on the item 2 with \<^verbatim>\<open>null\<close>.
\<close>

definition resolve_null :: "nat \<Rightarrow> scraper \<Rightarrow> outcome \<times> scraper" where
  "resolve_null x st = (Resolved JNull, st)"

definition reject_two :: "nat \<Rightarrow> scraper \<Rightarrow> outcome \<times> scraper" where
  "reject_two x st =
     (if x = 2 then (Rejected (thrown (JsError ''boom'')), st)
      else (Resolved (JNum (Fin (of_nat x))), st))"

definition reject_null_two :: "nat \<Rightarrow> scraper \<Rightarrow> outcome \<times> scraper" where
  "reject_null_two x st =
     (if x = 2 then (Rejected JNull, st) else (Resolved (JNum (Fin (of_nat x))), st))"

text \<open>
  Three rows of a city list. The name of the third is \<^verbatim>\<open>Ys\<close> followed by the lone
  surrogate D800.
\<close>

definition city_a :: city_listing where
  "city_a = \<lparr>name = ''Avalon'', url = ''https://fragile.city/city/Avalon'',
             pollution = JNum (Fin 12), citizens = JNum (Fin 340), emailVerified = True,
             isPatron = False, hasContributed = False\<rparr>"

definition city_b :: city_listing where
  "city_b = \<lparr>name = ''Bree'', url = ''https://fragile.city/city/Bree'',
             pollution = JNum (Fin (- 3)), citizens = JNum (Fin 25), emailVerified = False,
             isPatron = False, hasContributed = False\<rparr>"

definition city_c :: city_listing where
  "city_c = \<lparr>name = [CHR ''Y'', CHR ''s'', CHR 0xED, CHR 0xA0, CHR 0x80],
             url = ''https://fragile.city/city/Ys'',
             pollution = JNum (Fin 7), citizens = JNum (Fin 90), emailVerified = False,
             isPatron = False, hasContributed = False\<rparr>"


section \<open>Properties of the run orchestrator: war enrichment\<close>

lemma get_set_prop: "get_prop (set_prop ob k v) k' = (if k' = k then v else get_prop ob k')"
  by (simp add: get_prop_def set_prop_def update_conv')

text \<open>
  Claim C7. For every war and every set \<open>S\<close> of active city names, the enriched war has
  \<^verbatim>\<open>attackerActive\<close> = (attacker \<open>\<in>\<close> S), \<^verbatim>\<open>defenderActive\<close> = (defender \<open>\<in>\<close> S) and
  \<^verbatim>\<open>bothActive\<close> = their conjunction; \<^verbatim>\<open>runFullScrape\<close> applies this to every extracted war
  with \<open>S\<close> the names of the listed cities. For the war \<^verbatim>\<open>{attacker: "A", defender: "B", missiles: 5}\<close>
  and \<open>S = {"A", "C"}\<close> the three flags are true, false and false.
\<close>

theorem enrichWar_flags:
  "get_prop (enrichWar S war) ''attackerActive'' = JBool (get_prop war ''attacker'' \<in> S)
   \<and> get_prop (enrichWar S war) ''defenderActive'' = JBool (get_prop war ''defender'' \<in> S)
   \<and> get_prop (enrichWar S war) ''bothActive''
       = JBool (get_prop (enrichWar S war) ''attackerActive'' = JBool True
                \<and> get_prop (enrichWar S war) ''defenderActive'' = JBool True)
   \<and> warsWithValidation cities wars = map (enrichWar (activeCities cities)) wars
   \<and> enrichWar {JStr ''A'', JStr ''C''}
        [(''attacker'', JStr ''A''), (''defender'', JStr ''B''), (''missiles'', JNum (Fin 5))]
       = [(''attacker'', JStr ''A''), (''defender'', JStr ''B''), (''missiles'', JNum (Fin 5)),
          (''attackerActive'', JBool True), (''defenderActive'', JBool False),
          (''bothActive'', JBool False)]"
proof (intro conjI)
  show "enrichWar {JStr ''A'', JStr ''C''}
        [(''attacker'', JStr ''A''), (''defender'', JStr ''B''), (''missiles'', JNum (Fin 5))]
       = [(''attacker'', JStr ''A''), (''defender'', JStr ''B''), (''missiles'', JNum (Fin 5)),
          (''attackerActive'', JBool True), (''defenderActive'', JBool False),
          (''bothActive'', JBool False)]"
    by (simp add: enrichWar_def set_prop_def get_prop_def)
qed (simp_all add: enrichWar_def get_set_prop warsWithValidation_def)

section \<open>Properties of the transport\<close>

lemma fetch_trace:
  "fetchWithRetry env a rc st = (r, st') \<Longrightarrow> rc \<le> maxRetries st \<Longrightarrow>
   \<exists>n. rc + n \<le> maxRetries st
     \<and> requests st' = requests st @ replicate (Suc n) a
     \<and> sleeps st' = sleeps st @ map (\<lambda>k. retryDelay st * 2 ^ k) [rc..<rc + n]
     \<and> http_get env (length (requests st) + n) a = r
     \<and> (\<forall>k<n. \<exists>e. http_get env (length (requests st) + k) a = Inl e)
     \<and> (\<forall>e. r = Inl e \<longrightarrow> rc + n = maxRetries st)
     \<and> st' = st\<lparr>requests := requests st', sleeps := sleeps st'\<rparr>"
proof (induction env a rc st arbitrary: r st' rule: fetchWithRetry.induct)
  case (1 env a rc st)
  let ?st1 = "st\<lparr>requests := requests st @ [a]\<rparr>"
  show ?case
  proof (cases "http_get env (length (requests st)) a")
    case (Inr v)
    with "1.prems" have "r = Inr v" "st' = ?st1"
      by (simp_all add: fetchWithRetry.simps [of env a rc st])
    then show ?thesis using Inr "1.prems"(2) by (intro exI [of _ 0]) simp
  next
    case (Inl e)
    show ?thesis
    proof (cases "rc < maxRetries st")
      case False
      with Inl "1.prems" have "r = Inl e" "st' = ?st1"
        by (simp_all add: fetchWithRetry.simps [of env a rc st])
      then show ?thesis using Inl False "1.prems"(2) by (intro exI [of _ 0]) simp
    next
      case True
      let ?st2 = "sleep (retryDelay st * 2 ^ rc) ?st1"
      from Inl True "1.prems" have rec: "fetchWithRetry env a (rc + 1) ?st2 = (r, st')"
        by (simp add: fetchWithRetry.simps [of env a rc st])
      have "rc + 1 \<le> maxRetries ?st2" using True by (simp add: sleep_def)
      from "1.IH" [OF refl Inl True refl rec this]
      obtain n where n: "rc + 1 + n \<le> maxRetries ?st2"
        "requests st' = requests ?st2 @ replicate (Suc n) a"
        "sleeps st' = sleeps ?st2 @ map (\<lambda>k. retryDelay ?st2 * 2 ^ k) [rc + 1..<rc + 1 + n]"
        "http_get env (length (requests ?st2) + n) a = r"
        "\<forall>k<n. \<exists>e. http_get env (length (requests ?st2) + k) a = Inl e"
        "\<forall>e. r = Inl e \<longrightarrow> rc + 1 + n = maxRetries ?st2"
        "st' = ?st2\<lparr>requests := requests st', sleeps := sleeps st'\<rparr>"
        by blast
      have up: "[rc..<rc + Suc n] = rc # [rc + 1..<rc + 1 + n]"
        by (simp add: upt_conv_Cons)
      have prev: "\<forall>k<Suc n. \<exists>e. http_get env (length (requests st) + k) a = Inl e"
      proof (intro allI impI)
        fix k assume "k < Suc n"
        show "\<exists>e. http_get env (length (requests st) + k) a = Inl e"
        proof (cases k)
          case 0 then show ?thesis using Inl by simp
        next
          case (Suc j)
          with \<open>k < Suc n\<close> have "j < n" by simp
          with n(5) Suc show ?thesis by (simp add: sleep_def)
        qed
      qed
      show ?thesis
        apply (intro exI [of _ "Suc n"] conjI)
        using n(1) apply (simp add: sleep_def)
        using n(2) apply (simp add: sleep_def replicate_append_same)
        using n(3) up apply (simp add: sleep_def)
        using n(4) apply (simp add: sleep_def)
        using prev apply simp
        using n(6) apply (simp add: sleep_def)
        using n(7) apply (simp add: sleep_def)
        done
    qed
  qed
qed


section \<open>Properties of the batch scheduler\<close>

lemma error_message_throws:
  "(\<exists>e. error_message v = Inl e) \<longleftrightarrow> v = JNull \<or> v = JUndefined"
  by (cases v) (simp_all add: error_message_def)

lemma caught_all_append:
  "length xs = length outs \<Longrightarrow>
   caught_all (xs @ ys) (outs @ outs') = caught_all xs outs + caught_all ys outs'"
  by (simp add: caught_all_def)

lemma run_window_outcomes:
  assumes ok: "\<And>x s. fst (processFn x s) \<noteq> Rejected JNull \<and> fst (processFn x s) \<noteq> Rejected JUndefined"
  shows "run_window processFn xs st = ((rs, es, rejection), st') \<Longrightarrow>
   rejection = None
   \<and> (\<exists>outs. list_all2 (outcome_of processFn) xs outs
         \<and> filter (\<lambda>r. r \<noteq> JNull) rs = kept_all outs \<and> es = caught_all xs outs)"
proof (induction xs arbitrary: st rs es rejection st')
  case Nil
  then show ?case by (simp add: kept_all_def caught_all_def)
next
  case (Cons x xs)
  obtain out st1 where f: "processFn x st = (out, st1)" by (cases "processFn x st")
  then have o: "outcome_of processFn x out" unfolding outcome_of_def by (metis fst_conv)
  obtain rs' es' rej' st2 where w: "run_window processFn xs st1 = ((rs', es', rej'), st2)"
    by (metis surj_pair)
  from Cons.IH [OF w] obtain outs where ih: "rej' = None"
    "list_all2 (outcome_of processFn) xs outs"
    "filter (\<lambda>r. r \<noteq> JNull) rs' = kept_all outs" "es' = caught_all xs outs" by blast
  have "rejection = None \<and> list_all2 (outcome_of processFn) (x # xs) (out # outs)
     \<and> filter (\<lambda>r. r \<noteq> JNull) rs = kept_all (out # outs) \<and> es = caught_all (x # xs) (out # outs)"
  proof (cases out)
    case (Resolved v)
    with Cons.prems f w have "rs = v # rs'" "es = es'" "rejection = rej'" by simp_all
    with ih o Resolved show ?thesis
      by (simp add: kept_all_def caught_all_def kept_def caught_def)
  next
    case (Rejected v)
    from ok [of x st] f Rejected have "v \<noteq> JNull" "v \<noteq> JUndefined" by simp_all
    with error_message_throws [of v] obtain m where m: "error_message v = Inr m"
      by (cases "error_message v") auto
    with Cons.prems f w Rejected
    have "rs = JNull # rs'" "es = add_mset \<lparr>item = x, error = m\<rparr> es'" "rejection = rej'"
      by simp_all
    with ih o Rejected m show ?thesis
      by (simp add: kept_all_def caught_all_def kept_def caught_def)
  qed
  then show ?case by blast
qed

lemma batch_loop_outcomes:
  assumes c: "0 < c"
    and ok: "\<And>x s. fst (processFn x s) \<noteq> Rejected JNull \<and> fst (processFn x s) \<noteq> Rejected JUndefined"
  shows "\<exists>r st' outs. batch_loop processFn c items i acc st = Some (Inr r, st')
           \<and> list_all2 (outcome_of processFn) (drop i items) outs
           \<and> results r = results acc @ kept_all outs
           \<and> batch_errors r = batch_errors acc + caught_all (drop i items) outs"
proof (induction "length items - i" arbitrary: i acc st rule: less_induct)
  case less
  show ?case
  proof (cases "i < length items")
    case False
    then show ?thesis
      by (subst batch_loop.simps) (simp add: kept_all_def caught_all_def)
  next
    case True
    obtain rs es rej st1
      where w: "run_window processFn (slice items i (i + c)) st = ((rs, es, rej), st1)"
      by (metis surj_pair)
    from run_window_outcomes [of processFn, OF ok w] obtain outs1
      where win: "rej = None"
        "list_all2 (outcome_of processFn) (take c (drop i items)) outs1"
        "filter (\<lambda>r. r \<noteq> JNull) rs = kept_all outs1"
        "es = caught_all (take c (drop i items)) outs1"
      by (auto simp: slice_def)
    let ?acc = "\<lparr>results = results acc @ filter (\<lambda>r. r \<noteq> JNull) rs,
                 batch_errors = batch_errors acc + es\<rparr>"
    let ?st = "if i + c < length items then sleep (requestDelay st1) st1 else st1"
    have "length items - (i + c) < length items - i" using True c by simp
    from less [OF this, of ?acc ?st]
    obtain r st' outs2 where r: "batch_loop processFn c items (i + c) ?acc ?st = Some (Inr r, st')"
      "list_all2 (outcome_of processFn) (drop (i + c) items) outs2"
      "results r = results ?acc @ kept_all outs2"
      "batch_errors r = batch_errors ?acc + caught_all (drop (i + c) items) outs2"
      by blast
    have d: "drop (i + c) items = drop c (drop i items)" by (simp add: add.commute)
    have len: "length (take c (drop i items)) = length outs1"
      using win(2) by (rule list_all2_lengthD)
    have "list_all2 (outcome_of processFn) (take c (drop i items) @ drop c (drop i items)) (outs1 @ outs2)"
      using win(2) r(2) d by (simp add: list_all2_appendI)
    then have all: "list_all2 (outcome_of processFn) (drop i items) (outs1 @ outs2)"
      by (simp only: append_take_drop_id)
    have "caught_all (take c (drop i items) @ drop c (drop i items)) (outs1 @ outs2)
          = caught_all (take c (drop i items)) outs1 + caught_all (drop c (drop i items)) outs2"
      using len by (rule caught_all_append)
    then have ca: "caught_all (drop i items) (outs1 @ outs2)
          = caught_all (take c (drop i items)) outs1 + caught_all (drop c (drop i items)) outs2"
      by (simp only: append_take_drop_id)
    have "batch_loop processFn c items i acc st = Some (Inr r, st')"
      using True w r(1) win(1) by (subst batch_loop.simps) simp
    moreover have "results r = results acc @ kept_all (outs1 @ outs2)"
      using r(3) win(3) by (simp add: kept_all_def)
    moreover have "batch_errors r = batch_errors acc + caught_all (drop i items) (outs1 @ outs2)"
      using r(4) win(4) d ca by simp
    ultimately show ?thesis using all by blast
  qed
qed

lemma outcomes_accounted:
  "length xs = length outs \<Longrightarrow>
   \<forall>out\<in>set outs. out \<noteq> Rejected JNull \<and> out \<noteq> Rejected JUndefined \<Longrightarrow>
   length (kept_all outs) + size (caught_all xs outs)
     + length (filter (\<lambda>out. out = Resolved JNull) outs) = length xs"
proof (induction xs outs rule: list_induct2)
  case Nil
  then show ?case by (simp add: kept_all_def caught_all_def)
next
  case (Cons x xs out outs)
  have one: "length (kept out) + size (caught x out) + (if out = Resolved JNull then 1 else 0) = 1"
  proof (cases out)
    case (Resolved v)
    then show ?thesis by (simp add: kept_def caught_def)
  next
    case (Rejected v)
    with Cons.prems have "v \<noteq> JNull" "v \<noteq> JUndefined" by auto
    with error_message_throws [of v] obtain m where "error_message v = Inr m"
      by (cases "error_message v") auto
    with Rejected show ?thesis by (simp add: kept_def caught_def)
  qed
  from Cons have "length (kept_all outs) + size (caught_all xs outs)
     + length (filter (\<lambda>out. out = Resolved JNull) outs) = length xs" by simp
  with one show ?case by (auto simp: kept_all_def caught_all_def split: if_splits)
qed

text \<open>With a concurrency of 0 and an item left, the loop never returns.\<close>

lemma batch_loop_stuck:
  assumes "batch_loop processFn conc items i acc st = Some y"
  shows "conc = 0 \<longrightarrow> i < length items \<longrightarrow> False"
proof (rule batch_loop.raw_induct [where P = "\<lambda>processFn conc items i acc st y. conc = 0 \<longrightarrow> i < length items \<longrightarrow> False", OF _ assms])
  fix F :: "('a \<Rightarrow> scraper \<Rightarrow> outcome \<times> scraper) \<Rightarrow> nat \<Rightarrow> 'a list \<Rightarrow> nat \<Rightarrow> 'a batch_result \<Rightarrow> scraper \<Rightarrow> ((js_error + 'a batch_result) \<times> scraper) option"
    and processFn conc items i acc st y
  assume ih: "\<And>processFn conc items i acc st y. F processFn conc items i acc st = Some y \<Longrightarrow> conc = 0 \<longrightarrow> i < length items \<longrightarrow> False"
    and step: "(if i < length items then
        (case run_window processFn (slice items i (i + conc)) st of
           ((batchResults, errs, rejection), st1) \<Rightarrow>
             (case rejection of
                Some e \<Rightarrow> Some (Inl e, st1)
              | None \<Rightarrow>
                  F processFn conc items (i + conc)
                    \<lparr>results = results acc @ filter (\<lambda>r. r \<noteq> JNull) batchResults,
                     batch_errors = batch_errors acc + errs\<rparr>
                    (if i + conc < length items then sleep (requestDelay st1) st1 else st1)))
      else Some (Inr acc, st)) = Some y"
  show "conc = 0 \<longrightarrow> i < length items \<longrightarrow> False"
  proof (intro impI)
    assume z: "conc = 0" and lt: "i < length items"
    from z have w: "run_window processFn (slice items i (i + conc)) st = (([], {#}, None), st)"
      by (simp add: slice_def)
    from step lt w z have "\<exists>a s. F processFn 0 items i a s = Some y"
      by auto
    then obtain a s where "F processFn 0 items i a s = Some y" by blast
    from ih [OF this] lt show False by simp
  qed
qed

text \<open>
  Operations that, on the items that are \<open>good\<close>, resolve to a value other than \<^verbatim>\<open>null\<close>
  and, on the others, reject with a value that has a message: every good item has its
  result, related to it by any property \<open>Q\<close> that later steps preserve, and every other
  item has one entry in \<^verbatim>\<open>errors\<close>.
\<close>

lemma run_window_records:
  assumes f: "\<And>x s. if good x
                 then \<exists>v s'. processFn x s = (Resolved v, s') \<and> v \<noteq> JNull \<and> Q x v s'
                 else \<exists>v m s'. processFn x s = (Rejected v, s') \<and> error_message v = Inr m"
    and stable: "\<And>x v s y. Q x v s \<Longrightarrow> Q x v (snd (processFn y s))"
  shows "run_window processFn xs st = ((rs, es, rejection), st') \<Longrightarrow>
         rejection = None
         \<and> size es = length (filter (\<lambda>x. \<not> good x) xs)
         \<and> list_all2 (\<lambda>x v. Q x v st') (filter good xs) (filter (\<lambda>r. r \<noteq> JNull) rs)
         \<and> (\<forall>x v. Q x v st \<longrightarrow> Q x v st')"
proof (induction xs arbitrary: st rs es rejection st')
  case Nil
  then show ?case by simp
next
  case (Cons x xs)
  obtain out s1 where fx: "processFn x st = (out, s1)" by (cases "processFn x st")
  obtain rs' es' rej' s2 where w: "run_window processFn xs s1 = ((rs', es', rej'), s2)"
    by (metis surj_pair)
  from Cons.IH [OF w] have ih: "rej' = None" "size es' = length (filter (\<lambda>x. \<not> good x) xs)"
    "list_all2 (\<lambda>x v. Q x v s2) (filter good xs) (filter (\<lambda>r. r \<noteq> JNull) rs')"
    "\<forall>x v. Q x v s1 \<longrightarrow> Q x v s2" by simp_all
  have keep: "\<forall>y u. Q y u st \<longrightarrow> Q y u s2"
  proof (intro allI impI)
    fix y u assume "Q y u st"
    from stable [OF this, of x] fx have "Q y u s1" by simp
    with ih(4) show "Q y u s2" by blast
  qed
  show ?case
  proof (cases "good x")
    case True
    with f [of x st] fx obtain v where v: "out = Resolved v" "v \<noteq> JNull" "Q x v s1" by auto
    with Cons.prems fx w have eq: "rs = v # rs'" "es = es'" "rejection = rej'" "st' = s2"
      by simp_all
    from v(3) ih(4) have "Q x v s2" by blast
    with eq ih v(2) True keep show ?thesis by simp
  next
    case False
    with f [of x st] fx obtain v m where v: "out = Rejected v" "error_message v = Inr m" by auto
    with Cons.prems fx w
    have eq: "rs = JNull # rs'" "es = add_mset \<lparr>item = x, error = m\<rparr> es'" "rejection = rej'"
      "st' = s2" by simp_all
    with ih False keep show ?thesis by simp
  qed
qed

lemma batch_loop_records:
  assumes c: "0 < c"
    and f: "\<And>x s. if good x
                 then \<exists>v s'. processFn x s = (Resolved v, s') \<and> v \<noteq> JNull \<and> Q x v s'
                 else \<exists>v m s'. processFn x s = (Rejected v, s') \<and> error_message v = Inr m"
    and stable: "\<And>x v s y. Q x v s \<Longrightarrow> Q x v (snd (processFn y s))"
    and stable_sleep: "\<And>x v s d. Q x v s \<Longrightarrow> Q x v (sleep d s)"
  shows "\<exists>r st'. batch_loop processFn c items i acc st = Some (Inr r, st')
           \<and> size (batch_errors r)
               = size (batch_errors acc) + length (filter (\<lambda>x. \<not> good x) (drop i items))
           \<and> (\<exists>vs. results r = results acc @ vs
                 \<and> list_all2 (\<lambda>x v. Q x v st') (filter good (drop i items)) vs)
           \<and> (\<forall>x v. Q x v st \<longrightarrow> Q x v st')"
proof (induction "length items - i" arbitrary: i acc st rule: less_induct)
  case less
  show ?case
  proof (cases "i < length items")
    case False
    then show ?thesis by (subst batch_loop.simps) simp
  next
    case True
    obtain rs es rej st1
      where w: "run_window processFn (slice items i (i + c)) st = ((rs, es, rej), st1)"
      by (metis surj_pair)
    let ?win = "take c (drop i items)" and ?rest = "drop c (drop i items)"
    let ?kept = "filter (\<lambda>r. r \<noteq> JNull) rs"
    from run_window_records [of good processFn Q, OF f stable w]
    have win: "rej = None" "size es = length (filter (\<lambda>x. \<not> good x) ?win)"
      "list_all2 (\<lambda>x v. Q x v st1) (filter good ?win) ?kept"
      "\<forall>x v. Q x v st \<longrightarrow> Q x v st1"
      by (simp_all add: slice_def)
    let ?acc = "\<lparr>results = results acc @ ?kept, batch_errors = batch_errors acc + es\<rparr>"
    let ?st = "if i + c < length items then sleep (requestDelay st1) st1 else st1"
    have st1: "\<forall>x v. Q x v st1 \<longrightarrow> Q x v ?st"
      using stable_sleep by simp
    have "length items - (i + c) < length items - i" using True c by simp
    from less [OF this, of ?acc ?st]
    obtain r st' vs where r: "batch_loop processFn c items (i + c) ?acc ?st = Some (Inr r, st')"
      "size (batch_errors r)
         = size (batch_errors ?acc) + length (filter (\<lambda>x. \<not> good x) (drop (i + c) items))"
      "results r = results ?acc @ vs"
      "list_all2 (\<lambda>x v. Q x v st') (filter good (drop (i + c) items)) vs"
      "\<forall>x v. Q x v ?st \<longrightarrow> Q x v st'"
      by blast
    have d: "drop (i + c) items = ?rest" by (simp add: add.commute)
    have split: "filter P (drop i items) = filter P ?win @ filter P ?rest" for P
    proof -
      have "filter P (?win @ ?rest) = filter P ?win @ filter P ?rest" by (rule filter_append)
      then show ?thesis by (simp only: append_take_drop_id)
    qed
    have mono: "\<forall>x v. Q x v st1 \<longrightarrow> Q x v st'" using st1 r(5) by blast
    then have "list_all2 (\<lambda>x v. Q x v st') (filter good ?win) ?kept"
      using win(3) by (auto elim: list_all2_mono)
    with r(4) d have all: "list_all2 (\<lambda>x v. Q x v st') (filter good (drop i items)) (?kept @ vs)"
      by (simp add: split [of good] list_all2_appendI)
    have "batch_loop processFn c items i acc st = Some (Inr r, st')"
      using True w r(1) win(1) by (subst batch_loop.simps) simp
    moreover have "size (batch_errors r)
        = size (batch_errors acc) + length (filter (\<lambda>x. \<not> good x) (drop i items))"
      using r(2) win(2) d by (simp add: split [of "\<lambda>x. \<not> good x"])
    moreover have "results r = results acc @ (?kept @ vs)" using r(3) by simp
    moreover have "\<forall>x v. Q x v st \<longrightarrow> Q x v st'" using win(4) mono by blast
    ultimately show ?thesis using all by blast
  qed
qed

section \<open>The claims about the batch scheduler and the transport\<close>

lemma outcomes_with_message:
  assumes "list_all2 (outcome_of processFn) items outs"
    and "\<And>x s. fst (processFn x s) \<noteq> Rejected JNull \<and> fst (processFn x s) \<noteq> Rejected JUndefined"
  shows "\<forall>out\<in>set outs. out \<noteq> Rejected JNull \<and> out \<noteq> Rejected JUndefined"
proof
  fix out assume "out \<in> set outs"
  then obtain n where n: "n < length outs" "outs ! n = out" by (auto simp: in_set_conv_nth)
  with assms(1) have "outcome_of processFn (items ! n) out"
    by (auto simp: list_all2_conv_all_nth)
  then obtain s where "fst (processFn (items ! n) s) = out" unfolding outcome_of_def by blast
  with assms(2) [of "items ! n" s] show "out \<noteq> Rejected JNull \<and> out \<noteq> Rejected JUndefined"
    by simp
qed

text \<open>
  Claim C2, as amended. For every sequence of \<open>N\<close> items, every concurrency of at least 1
  and every operation that does not reject with \<^verbatim>\<open>null\<close> or \<^verbatim>\<open>undefined\<close>, \<^verbatim>\<open>processBatch\<close>
  returns \<^verbatim>\<open>{results, errors}\<close>, and each item has exactly one outcome of the operation:
  a value other than \<^verbatim>\<open>null\<close> goes to \<^verbatim>\<open>results\<close>, in item order, a rejection goes to
  \<^verbatim>\<open>errors\<close> as \<^verbatim>\<open>{item, error}\<close> with the message of the rejected value, and no outcome
  keeps the items beside or after it from being processed. So the sizes of \<^verbatim>\<open>results\<close>
  and \<^verbatim>\<open>errors\<close> add up to \<open>N\<close> less the number of items whose operation resolved to
  \<^verbatim>\<open>null\<close>.
\<close>

theorem processBatch_accounts_for_items:
  assumes "0 < c"
    and "\<And>x s. fst (processFn x s) \<noteq> Rejected JNull \<and> fst (processFn x s) \<noteq> Rejected JUndefined"
  shows "\<exists>r st' outs. processBatch items processFn (Some c) st = Some (Inr r, st')
           \<and> list_all2 (outcome_of processFn) items outs
           \<and> results r = kept_all outs
           \<and> batch_errors r = caught_all items outs
           \<and> length (results r) + size (batch_errors r)
               + length (filter (\<lambda>out. out = Resolved JNull) outs) = length items"
proof -
  from batch_loop_outcomes [of c processFn items 0 "\<lparr>results = [], batch_errors = {#}\<rparr>" st,
      OF assms]
  obtain r st' outs where r:
    "batch_loop processFn c items 0 \<lparr>results = [], batch_errors = {#}\<rparr> st = Some (Inr r, st')"
    "list_all2 (outcome_of processFn) items outs"
    "results r = kept_all outs" "batch_errors r = caught_all items outs"
    by auto
  from r(2) have len: "length items = length outs" by (rule list_all2_lengthD)
  from outcomes_with_message [OF r(2) assms(2)]
  have "\<forall>out\<in>set outs. out \<noteq> Rejected JNull \<and> out \<noteq> Rejected JUndefined" .
  from outcomes_accounted [OF len this] r
  show ?thesis by (auto simp: processBatch_def)
qed

lemma reject_two_message:
  "fst (reject_two x s) \<noteq> Rejected JNull \<and> fst (reject_two x s) \<noteq> Rejected JUndefined"
  by (simp add: reject_two_def thrown_def)

lemma pb_ev: "processBatch [1, 2, 3] reject_two (Some 2) (constructor default_options)
     = Some (Inr \<lparr>results = [JNum (Fin 1), JNum (Fin 3)],
                  batch_errors = {#\<lparr>item = 2, error = JStr ''boom''\<rparr>#}\<rparr>,
             (constructor default_options)\<lparr>sleeps := [100]\<rparr>)"
  by (simp add: processBatch_def batch_loop.simps slice_def reject_two_def sleep_def
      constructor_def default_options_def or_default_def thrown_def error_message_def
      get_prop_def)

text \<open>Three items in windows of two, the second item rejecting with an \<^verbatim>\<open>Error\<close>.\<close>

theorem processBatch_accounts_for_items_witness:
  "(0 :: nat) < 2
   \<and> fst (reject_two 2 (constructor default_options)) = Rejected (thrown (JsError ''boom''))
   \<and> error_message (thrown (JsError ''boom'')) = Inr (JStr ''boom'')
   \<and> processBatch [1, 2, 3] reject_two (Some 2) (constructor default_options)
     = Some (Inr \<lparr>results = [JNum (Fin 1), JNum (Fin 3)],
                  batch_errors = {#\<lparr>item = 2, error = JStr ''boom''\<rparr>#}\<rparr>,
             (constructor default_options)\<lparr>sleeps := [100]\<rparr>)
   \<and> (\<exists>r st' outs.
        processBatch [1, 2, 3] reject_two (Some 2) (constructor default_options)
          = Some (Inr r, st')
        \<and> list_all2 (outcome_of reject_two) [1, 2, 3] outs
        \<and> results r = kept_all outs
        \<and> batch_errors r = caught_all [1, 2, 3] outs
        \<and> length (results r) + size (batch_errors r)
            + length (filter (\<lambda>out. out = Resolved JNull) outs) = length [1 :: nat, 2, 3])"
  using processBatch_accounts_for_items
      [of 2 reject_two "[1, 2, 3]" "constructor default_options", OF _ reject_two_message]
    pb_ev
  by (simp add: reject_two_def thrown_def error_message_def get_prop_def)

text \<open>
  The claim as first stated fails in two ways. For one item whose operation resolves to
  \<^verbatim>\<open>null\<close> both collections come back empty, so the two sizes do not add up to \<open>N\<close>. And
  for three items in windows of two, the second of which rejects with \<^verbatim>\<open>null\<close>, the call
  rejects with the \<^verbatim>\<open>TypeError\<close> of the handler: the result of the first item is lost and
  the third item is never processed.
\<close>

theorem processBatch_null_counterexample:
  "processBatch [7] resolve_null (Some 5) (constructor default_options)
     = Some (Inr \<lparr>results = [], batch_errors = {#}\<rparr>, constructor default_options)
   \<and> length (results \<lparr>results = [], batch_errors = ({#} :: nat batch_error multiset)\<rparr>)
      + size (batch_errors \<lparr>results = [], batch_errors = ({#} :: nat batch_error multiset)\<rparr>)
      \<noteq> length [7 :: nat]
   \<and> processBatch [1, 2, 3] reject_null_two (Some 2) (constructor default_options)
     = Some (Inl (JsError (''Cannot read properties of null (reading '' @ [CHR 0x27]
                           @ ''message'' @ [CHR 0x27] @ '')'')),
             constructor default_options)"
  by (simp add: processBatch_def batch_loop.simps slice_def resolve_null_def reject_null_two_def
      error_message_def)




section \<open>Properties of the number and unit parser\<close>

lemma match_signed_none: "\<forall>c\<in>set s. \<not> C c \<Longrightarrow> match_signed C s = None"
proof (induction s)
  case Nil
  then show ?case by simp
next
  case (Cons c cs)
  then have "cs \<noteq> [] \<Longrightarrow> \<not> C (hd cs)" by simp
  with Cons show ?case by auto
qed

lemma match_signed_some: "\<exists>c\<in>set s. C c \<Longrightarrow> \<exists>tok r. match_signed C s = Some (tok, r)"
  by (induction s) auto

lemma bitlen_numeral:
  "bitlen 0 = 0"
  "bitlen (Suc 0) = 1"
  "bitlen (numeral k) = Suc (bitlen (numeral k div 2))"
  by (simp_all add: bitlen.simps)

lemma floor_rat_numeral:
  "\<lfloor>numeral a / numeral b :: rat\<rfloor> = numeral a div numeral b"
  using floor_divide_of_int_eq [of "numeral a" "numeral b", where ?'a = rat] by simp

lemmas round_simps = round_double_def ilog2_def Let_def pow2_def round_half_even_def
  bitlen_numeral floor_rat_numeral

lemmas trim_simps = trim_def space_seqs_def strip_spaces.simps

lemmas parse_simps = extractNumber_def parseStatNumber_def extractStatValue_def
  parseInt_def parseFloat_def split_sign_def signed_def strip_commas_def trim_simps
  opt_suffix_def suffix_text_def is_suffix_def int_char_def stat_char_def is_digit_def
  digits_val_def digit_val_def

text \<open>White space is removed and replaced beyond ASCII: here U+00A0 and U+2003.\<close>

lemma white_space_examples:
  "trim '' 373.69k  '' = ''373.69k''"
  "trim ([CHR 0xC2, CHR 0xA0] @ ''Coal  Plant'' @ [CHR 0xE2, CHR 0x80, CHR 0x83])
     = ''Coal  Plant''"
  "underscore_spaces (''Coal '' @ [CHR 0xC2, CHR 0xA0] @ ''Plant'') = ''Coal_Plant''"
  by (simp_all add: trim_simps)

text \<open>
  \<^verbatim>\<open>parseStatNumber\<close> returns \<^verbatim>\<open>null\<close> exactly when the text holds no digit, no comma and
  no period; otherwise it returns a number, which is NaN when the first run of these
  characters holds no digit.
\<close>

lemma strip_spaces_keeps:
  assumes "c \<in> set s" and "\<forall>w\<in>set seqs. c \<notin> set w"
  shows "c \<in> set (strip_spaces seqs s)"
  using assms
proof (induction seqs s rule: strip_spaces.induct)
  case (1 seqs s)
  show ?case
  proof (cases "find (\<lambda>w. w \<noteq> [] \<and> take (length w) s = w) seqs")
    case None
    with 1 show ?thesis by (simp add: strip_spaces.simps [of seqs s])
  next
    case (Some w)
    then have w: "w \<in> set seqs" "take (length w) s = w"
      by (auto simp: find_Some_iff)
    have "set s = set (take (length w) s) \<union> set (drop (length w) s)"
      by (metis append_take_drop_id set_append)
    with w "1.prems" have "c \<in> set (drop (length w) s)" by auto
    from "1.IH" [OF Some this "1.prems"(2)] Some show ?thesis
      by (simp add: strip_spaces.simps [of seqs s])
  qed
qed

lemma strip_spaces_subset: "set (strip_spaces seqs s) \<subseteq> set s"
proof (induction seqs s rule: strip_spaces.induct)
  case (1 seqs s)
  show ?case
  proof (cases "find (\<lambda>w. w \<noteq> [] \<and> take (length w) s = w) seqs")
    case None
    then show ?thesis by (simp add: strip_spaces.simps [of seqs s])
  next
    case (Some w)
    from 1 [OF Some] have "set (strip_spaces seqs (drop (length w) s)) \<subseteq> set s"
      using set_drop_subset by fastforce
    with Some show ?thesis by (simp add: strip_spaces.simps [of seqs s])
  qed
qed

lemma stat_char_no_space: "stat_char c \<Longrightarrow> \<forall>w\<in>set space_seqs. c \<notin> set w"
  by (auto simp: stat_char_def is_digit_def space_seqs_def)

lemma trim_stat_chars: "(\<exists>c\<in>set (trim text). stat_char c) \<longleftrightarrow> (\<exists>c\<in>set text. stat_char c)"
proof
  assume "\<exists>c\<in>set (trim text). stat_char c"
  moreover have "set (trim text) \<subseteq> set text"
    unfolding trim_def using strip_spaces_subset [of "map rev space_seqs" "rev (strip_spaces space_seqs text)"]
      strip_spaces_subset [of space_seqs "text"] by auto
  ultimately show "\<exists>c\<in>set text. stat_char c" by blast
next
  assume "\<exists>c\<in>set text. stat_char c"
  then obtain c where c: "c \<in> set text" "stat_char c" by blast
  from stat_char_no_space [OF c(2)] have ns: "\<forall>w\<in>set space_seqs. c \<notin> set w" .
  then have nr: "\<forall>w\<in>set (map rev space_seqs). c \<notin> set w" by simp
  from strip_spaces_keeps [OF c(1) ns] have "c \<in> set (rev (strip_spaces space_seqs text))" by simp
  from strip_spaces_keeps [OF this nr] have "c \<in> set (trim text)" by (simp add: trim_def)
  with c(2) show "\<exists>c\<in>set (trim text). stat_char c" by blast
qed

lemma parseStatNumber_null_iff:
  "parseStatNumber text = JNull \<longleftrightarrow> (\<forall>c\<in>set text. \<not> stat_char c)"
proof
  assume n: "parseStatNumber text = JNull"
  show "\<forall>c\<in>set text. \<not> stat_char c"
  proof (rule ccontr)
    assume "\<not> (\<forall>c\<in>set text. \<not> stat_char c)"
    then have some: "\<exists>c\<in>set text. stat_char c" by blast
    then have "\<exists>c\<in>set (trim text). stat_char c" by (simp only: trim_stat_chars)
    then obtain tok r where "match_signed stat_char (trim text) = Some (tok, r)"
      using match_signed_some by blast
    moreover from some have "text \<noteq> []" by auto
    ultimately show False using n by (simp add: parseStatNumber_def Let_def split: if_splits)
  qed
next
  assume none: "\<forall>c\<in>set text. \<not> stat_char c"
  then have "\<not> (\<exists>c\<in>set (trim text). stat_char c)" by (simp only: trim_stat_chars) blast
  then have "match_signed stat_char (trim text) = None" by (intro match_signed_none) blast
  then show "parseStatNumber text = JNull" by (simp add: parseStatNumber_def)
qed

text \<open>
  Claim C4. The pattern of \<^verbatim>\<open>parseStatNumber\<close> takes any run of digits, commas and
  periods for the numeric token. On \<^verbatim>\<open>"."\<close>, \<^verbatim>\<open>","\<close> and \<^verbatim>\<open>"n.a."\<close>, which hold no number,
  the result is NaN: a number and not \<^verbatim>\<open>null\<close>. The examples of the claim come out as
  stated: \<^verbatim>\<open>"373.69k"\<close> gives 373690, \<^verbatim>\<open>"-18,651"\<close> gives -18651 and the empty text gives
  \<^verbatim>\<open>null\<close>; so does \<^verbatim>\<open>"n/a"\<close>, and \<^verbatim>\<open>"5K"\<close> gives 5, an upper-case K being no suffix.
\<close>

theorem parseStatNumber_digitless_token:
  "parseStatNumber ''.'' = JNum NaN
   \<and> parseStatNumber '','' = JNum NaN
   \<and> parseStatNumber ''n.a.'' = JNum NaN
   \<and> parseStatNumber ''373.69k'' = JNum (Fin 373690)
   \<and> parseStatNumber ''-18,651'' = JNum (Fin (- 18651))
   \<and> parseStatNumber [] = JNull
   \<and> parseStatNumber ''n/a'' = JNull
   \<and> parseStatNumber ''5K'' = JNum (Fin 5)"
  by (simp add: parse_simps round_simps)

text \<open>
  Claim C1. The fraction pattern of \<^verbatim>\<open>extractStatValue\<close> allows a magnitude suffix on
  the right operand only. On \<^verbatim>\<open>"373.69k/374.05k"\<close> it does not match, the single pattern
  takes over and the result is the number 373690: the right operand is lost and no pair
  is returned, although each operand alone parses to 373690 and 374050. The two examples
  of the claim, \<^verbatim>\<open>"0/300.37k"\<close> and \<^verbatim>\<open>"42"\<close>, come out as stated.
\<close>

theorem extractStatValue_left_suffix:
  "extractStatValue ''373.69k/374.05k'' = JNum (Fin 373690)
   \<and> parseStatNumber ''373.69k'' = JNum (Fin 373690)
   \<and> parseStatNumber ''374.05k'' = JNum (Fin 374050)
   \<and> extractStatValue ''0/300.37k''
       = JObj [(''current'', JNum (Fin 0)), (''max'', JNum (Fin 300370))]
   \<and> extractStatValue ''42'' = JNum (Fin 42)"
  by (simp add: parse_simps round_simps)

text \<open>
  \<^verbatim>\<open>extractNumber\<close> returns \<^verbatim>\<open>null\<close> exactly when the text holds no digit and no comma;
  otherwise it returns a number, which is NaN when the first run holds commas only.
\<close>

lemma extractNumber_null_iff:
  "extractNumber text = JNull \<longleftrightarrow> (\<forall>c\<in>set text. \<not> int_char c)"
proof
  assume n: "extractNumber text = JNull"
  show "\<forall>c\<in>set text. \<not> int_char c"
  proof (rule ccontr)
    assume "\<not> (\<forall>c\<in>set text. \<not> int_char c)"
    then have "\<exists>c\<in>set text. int_char c" by blast
    then obtain tok r where "match_signed int_char text = Some (tok, r)"
      using match_signed_some by blast
    with n show False by (auto simp: extractNumber_def split: if_splits)
  qed
next
  assume "\<forall>c\<in>set text. \<not> int_char c"
  then have "match_signed int_char text = None" by (rule match_signed_none)
  then show "extractNumber text = JNull" by (simp add: extractNumber_def)
qed

text \<open>
  Claim C9. The pattern of \<^verbatim>\<open>extractNumber\<close> takes a run of commas for a token. On
  \<^verbatim>\<open>","\<close>, which holds no integer, the result is NaN: neither \<^verbatim>\<open>null\<close> nor an integer.
  On \<^verbatim>\<open>"a, 5"\<close> the comma is matched before the 5 and the result is NaN as well. A
  token with digits, such as \<^verbatim>\<open>"-18,651"\<close>, is parsed to its integer.
\<close>

theorem extractNumber_separator_token:
  "extractNumber '','' = JNum NaN
   \<and> \<not> is_integer (extractNumber '','')
   \<and> extractNumber ''a, 5'' = JNum NaN
   \<and> extractNumber ''-18,651'' = JNum (Fin (- 18651))"
  by (simp add: parse_simps round_simps)

section \<open>Properties of the building extraction\<close>

lemma has_key_set_prop: "has_key (set_prop ob k v) k' \<longleftrightarrow> k' = k \<or> has_key ob k'"
  by (auto simp: has_key_def set_prop_def dom_update)

lemma has_key_assign_number:
  "has_key (assign_number ob k v) k' \<longleftrightarrow> k' = k \<and> k \<noteq> ''__proto__'' \<or> has_key ob k'"
  by (simp add: assign_number_def has_key_set_prop)

lemma get_assign_number:
  "get_prop (assign_number ob k v) k'
     = (if k' = k \<and> k \<noteq> ''__proto__'' then v else get_prop ob k')"
  by (simp add: assign_number_def get_set_prop)

lemma building_step_keeps_key: "has_key b k \<Longrightarrow> has_key (building_step env b sec) k"
  by (auto simp: building_step_def Let_def has_key_assign_number split: option.splits)

lemma buildings_keep_key: "has_key b k \<Longrightarrow> has_key (foldl (building_step env) b secs) k"
  by (induction secs arbitrary: b) (simp_all add: building_step_keeps_key)

lemma building_step_keeps_zero:
  "get_prop b k = JNum (Fin 0) \<Longrightarrow> \<not> overwrites env k sec \<Longrightarrow>
   get_prop (building_step env b sec) k = JNum (Fin 0)"
  by (auto simp: building_step_def Let_def get_assign_number overwrites_def split: option.splits)

lemma buildings_keep_zero:
  "get_prop b k = JNum (Fin 0) \<Longrightarrow> \<forall>sec\<in>set secs. \<not> overwrites env k sec \<Longrightarrow>
   get_prop (foldl (building_step env) b secs) k = JNum (Fin 0)"
  by (induction secs arbitrary: b) (simp_all add: building_step_keeps_zero)

lemma building_step_no_cell:
  assumes "trim (fst sec) \<noteq> []" and "snd sec = None"
  shows "building_step env b sec
           = assign_number b (cleanName env (trim (fst sec))) (JNum (Fin 0))"
  using assms by (simp add: building_step_def)

lemmas text_simps = trim_simps cleanName_def ascii_lower_def env_down_def is_digit_def
  int_char_def strip_commas_def split_sign_def signed_def digits_val_def digit_val_def

text \<open>
  Claim C8, as amended. For every building section with a nonempty heading and no green
  count cell, whose normalised heading (trimmed, lower case, each run of white space an
  underscore) is not \<^verbatim>\<open>__proto__\<close>, the extracted mapping has an entry under the normalised
  heading: the key is never left out. The entry is 0 unless a section further down the
  page normalises to the same key and has a count cell from which a number is read,
  which then replaces it.
\<close>

theorem extractBuildings_zero_entry:
  assumes "trim (fst sec) \<noteq> []" and "snd sec = None"
    and "cleanName env (trim (fst sec)) \<noteq> ''__proto__''"
  shows "has_key (extractBuildings env (before @ sec # after)) (cleanName env (trim (fst sec)))
         \<and> ((\<forall>s\<in>set after. \<not> overwrites env (cleanName env (trim (fst sec))) s) \<longrightarrow>
              get_prop (extractBuildings env (before @ sec # after))
                (cleanName env (trim (fst sec)))
                = JNum (Fin 0))"
proof -
  let ?k = "cleanName env (trim (fst sec))"
  let ?b = "building_step env (foldl (building_step env) [] before) sec"
  have e: "extractBuildings env (before @ sec # after) = foldl (building_step env) ?b after"
    by (simp add: extractBuildings_def)
  have b: "?b = assign_number (foldl (building_step env) [] before) ?k (JNum (Fin 0))"
    using assms(1,2) by (rule building_step_no_cell)
  have "has_key ?b ?k" using assms(3) by (simp add: b has_key_assign_number)
  then have 1: "has_key (foldl (building_step env) ?b after) ?k" by (rule buildings_keep_key)
  have z: "get_prop ?b ?k = JNum (Fin 0)" using assms(3) by (simp add: b get_assign_number)
  have 2: "(\<forall>s\<in>set after. \<not> overwrites env ?k s) \<longrightarrow>
             get_prop (foldl (building_step env) ?b after) ?k = JNum (Fin 0)"
    using buildings_keep_zero [OF z] by blast
  from 1 2 show ?thesis unfolding e by blast
qed

text \<open>A page with the sections Farm (4), Coal Plant (no count cell) and Mine (2).\<close>

theorem extractBuildings_zero_entry_witness:
  "trim (fst (''Coal Plant'', None :: string option)) = ''Coal Plant''
   \<and> snd (''Coal Plant'', None :: string option) = None
   \<and> cleanName env_down (trim (fst (''Coal Plant'', None :: string option))) = ''coal_plant''
   \<and> \<not> overwrites env_down ''coal_plant'' (''Mine'', Some ''2'')
   \<and> extractBuildings env_down
        ([(''Farm'', Some ''4'')] @ (''Coal Plant'', None) # [(''Mine'', Some ''2'')])
       = [(''farm'', JNum (Fin 4)), (''coal_plant'', JNum (Fin 0)), (''mine'', JNum (Fin 2))]
   \<and> has_key (extractBuildings env_down
                 ([(''Farm'', Some ''4'')] @ (''Coal Plant'', None) # [(''Mine'', Some ''2'')]))
        ''coal_plant''
   \<and> get_prop (extractBuildings env_down
                  ([(''Farm'', Some ''4'')] @ (''Coal Plant'', None) # [(''Mine'', Some ''2'')]))
        ''coal_plant'' = JNum (Fin 0)"
  using extractBuildings_zero_entry
      [of "(''Coal Plant'', None)" env_down "[(''Farm'', Some ''4'')]" "[(''Mine'', Some ''2'')]"]
  by (simp add: extractBuildings_def building_step_def assign_number_def set_prop_def
      get_prop_def extractNumber_def parseInt_def text_simps round_simps overwrites_def
      has_key_def)

text \<open>
  The claim as first stated fails on a page with the headings \<^verbatim>\<open>Coal Plant\<close>, without a
  count cell, and \<^verbatim>\<open>coal plant\<close>, with the count 3: the mapping has the single entry
  \<^verbatim>\<open>coal_plant\<close> = 3, so neither the heading nor the normalised key is mapped to 0. It
  fails as well for a section whose green count cell is empty, which is left out of the
  mapping, and for the heading \<^verbatim>\<open>__proto__\<close> without a count cell, for which no key is
  created.
\<close>

theorem extractBuildings_overwritten_counterexample:
  "extractBuildings env_down [(''Coal Plant'', None), (''coal plant'', Some ''3'')]
     = [(''coal_plant'', JNum (Fin 3))]
   \<and> get_prop (extractBuildings env_down [(''Coal Plant'', None), (''coal plant'', Some ''3'')])
        ''Coal Plant'' \<noteq> JNum (Fin 0)
   \<and> get_prop (extractBuildings env_down [(''Coal Plant'', None), (''coal plant'', Some ''3'')])
        ''coal_plant'' \<noteq> JNum (Fin 0)
   \<and> extractBuildings env_down [(''Farm'', Some [])] = []
   \<and> extractBuildings env_down [(''__proto__'', None)] = []"
  by (simp add: extractBuildings_def building_step_def assign_number_def set_prop_def
      get_prop_def extractNumber_def parseInt_def text_simps round_simps)

section \<open>Properties of the record validator\<close>

lemma now_simps:
  "fst (now env st) = iso_time env (clock_reads st)"
  "snd (now env st) = st\<lparr>clock_reads := clock_reads st + 1\<rparr>"
  by (simp_all add: now_def)

lemma addWarning_eq:
  "addWarning env ty msg ctx st =
     st\<lparr>clock_reads := clock_reads st + 1,
        warnings := warnings st @
          [\<lparr>w_type = ty, w_message = msg, w_context = ctx,
            w_timestamp = iso_time env (clock_reads st)\<rparr>]\<rparr>"
  by (simp add: addWarning_def now_def)

lemma validateCity_missing:
  assumes "\<exists>field\<in>set [''name'', ''url'', ''pollution'', ''citizens'']. absent (get_prop city field)"
  shows "fst (validateCity env city st) = False"
    and "length (warnings (snd (validateCity env city st))) = length (warnings st) + 1"
proof -
  let ?missing = "filter (\<lambda>field. absent (get_prop city field)) [''name'', ''url'', ''pollution'', ''citizens'']"
  from assms have "?missing \<noteq> []" by (simp only: filter_empty_conv) blast
  then show "fst (validateCity env city st) = False"
    and "length (warnings (snd (validateCity env city st))) = length (warnings st) + 1"
    by (simp_all add: validateCity_def Let_def addWarning_eq del: filter.simps)
qed

lemma validateCity_invalid_citizens:
  assumes "\<forall>field\<in>set [''name'', ''url'', ''pollution'', ''citizens'']. \<not> absent (get_prop city field)"
    and "not_count (get_prop city ''citizens'')"
  shows "validateCity env city st =
           (True, addWarning env ''InvalidCityData''
                    [JStr ''Invalid citizens count: '', get_prop city ''citizens'']
                    [(''city'', get_prop city ''name'')] st)"
  using assms by (simp add: validateCity_def)

lemma validateCity_valid:
  assumes "\<forall>field\<in>set [''name'', ''url'', ''pollution'', ''citizens'']. \<not> absent (get_prop city field)"
    and "\<not> not_count (get_prop city ''citizens'')"
  shows "validateCity env city st = (True, st)"
  using assms by (simp add: validateCity_def)

lemma not_count_iff:
  "not_count v \<longleftrightarrow> \<not> is_number v \<or> v = JNum NegInf \<or> (\<exists>a. v = JNum (Fin a) \<and> a < 0)"
proof (cases v)
  case (JNum n)
  then show ?thesis by (cases n) (simp_all add: not_count_def is_number_def)
qed (simp_all add: not_count_def is_number_def)

lemma scrapeCityList_row_rejected:
  assumes "\<not> fst (validateCity env (listing_obj cityData) st)"
  shows "fst (scrapeCityList_row env cityData (cities, st)) = cities"
  using assms by (cases "validateCity env (listing_obj cityData) st") (simp add: scrapeCityList_row_def)

lemma scrapeCityList_row_accepted:
  assumes "fst (validateCity env (listing_obj cityData) st)" and "name cityData \<noteq> []"
  shows "fst (scrapeCityList_row env cityData (cities, st)) = cities @ [cityData]"
  using assms by (cases "validateCity env (listing_obj cityData) st") (simp add: scrapeCityList_row_def)

text \<open>
  Claim C5. The first half holds (lemmas \<open>validateCity_missing\<close> and
  \<open>scrapeCityList_row_rejected\<close>), and so does the second for a \<^verbatim>\<open>citizens\<close> value that is
  not of type number or is negative (lemma \<open>validateCity_invalid_citizens\<close>). It fails for
  NaN, which is not a non-negative number either: \<^verbatim>\<open>typeof NaN\<close> is \<^verbatim>\<open>'number'\<close> and
  \<^verbatim>\<open>NaN < 0\<close> is false, so the record is accepted and no warning is queued. The city
  list can produce such a record: \<^verbatim>\<open>extractNumber\<close> returns NaN for a span that reads
  \<^verbatim>\<open>","\<close>.
\<close>

theorem validateCity_nan_citizens:
  "validateCity env_down
     [(''name'', JStr ''X''), (''url'', JStr ''https://fragile.city/city/X''),
      (''pollution'', JNum (Fin 1)), (''citizens'', JNum NaN)]
     (constructor default_options)
     = (True, constructor default_options)
   \<and> extractNumber '','' = JNum NaN
   \<and> scrapeCityList_row env_down
        \<lparr>name = ''X'', url = ''https://fragile.city/city/X'', pollution = JNum (Fin 1),
         citizens = extractNumber '','', emailVerified = False, isPatron = False,
         hasContributed = False\<rparr>
        ([], constructor default_options)
     = ([\<lparr>name = ''X'', url = ''https://fragile.city/city/X'', pollution = JNum (Fin 1),
          citizens = JNum NaN, emailVerified = False, isPatron = False,
          hasContributed = False\<rparr>], constructor default_options)"
  by (simp add: validateCity_def scrapeCityList_row_def listing_obj_def get_prop_def absent_def
      not_count_def extractNumber_def parseInt_def text_simps)

section \<open>Properties of the city detail scrape and of the batch over the cities\<close>

lemma warn_if_errors: "errors (warn_if env b ty msg ctx st) = errors st"
  by (simp add: warn_if_def addWarning_eq)

lemma warn_if_baseUrl: "baseUrl (warn_if env b ty msg ctx st) = baseUrl st"
  by (simp add: warn_if_def addWarning_eq)

lemma warn_if_concurrency: "concurrency (warn_if env b ty msg ctx st) = concurrency st"
  by (simp add: warn_if_def addWarning_eq)

lemma validateCityDetails_keeps:
  "errors (snd (validateCityDetails env cityData st)) = errors st"
  "baseUrl (snd (validateCityDetails env cityData st)) = baseUrl st"
  "concurrency (snd (validateCityDetails env cityData st)) = concurrency st"
  by (simp_all add: validateCityDetails_def Let_def addWarning_eq warn_if_errors warn_if_baseUrl
      warn_if_concurrency)

lemma fetch_from_zero:
  assumes "fetchWithRetry env a 0 st = (r, st')"
  shows "errors st' = errors st" and "baseUrl st' = baseUrl st"
    and "clock_reads st' = clock_reads st" and "concurrency st' = concurrency st"
proof -
  from fetch_trace [OF assms] have "st' = st\<lparr>requests := requests st', sleeps := sleeps st'\<rparr>"
    by auto
  then have "errors st' = errors (st\<lparr>requests := requests st', sleeps := sleeps st'\<rparr>)"
    "baseUrl st' = baseUrl (st\<lparr>requests := requests st', sleeps := sleeps st'\<rparr>)"
    "clock_reads st' = clock_reads (st\<lparr>requests := requests st', sleeps := sleeps st'\<rparr>)"
    "concurrency st' = concurrency (st\<lparr>requests := requests st', sleeps := sleeps st'\<rparr>)"
    by simp_all
  then show "errors st' = errors st" and "baseUrl st' = baseUrl st"
    and "clock_reads st' = clock_reads st" and "concurrency st' = concurrency st"
    by simp_all
qed

text \<open>The address of a city page exists exactly when the name holds no lone surrogate.\<close>

lemma city_url_throws:
  "lone_surrogate cityName \<Longrightarrow> city_url st cityName = Inl (JsError ''URI malformed'')"
  by (simp add: city_url_def encodeURIComponent_def)

lemma city_url_returns:
  "city_url st cityName = Inr address \<Longrightarrow> \<not> lone_surrogate cityName"
  by (auto simp: city_url_def encodeURIComponent_def split: if_splits)

lemma city_url_exists:
  "\<not> lone_surrogate cityName \<Longrightarrow> \<exists>address. city_url st cityName = Inr address"
  by (simp add: city_url_def encodeURIComponent_def)

lemma city_url_baseUrl:
  "baseUrl st' = baseUrl st \<Longrightarrow> city_url st' cityName = city_url st cityName"
  by (simp add: city_url_def split: sum.splits)

lemma scrapeCity_try_result:
  assumes "scrapeCity_try env cityName st = (r, st1)"
  shows "errors st1 = errors st \<and> baseUrl st1 = baseUrl st \<and> concurrency st1 = concurrency st
         \<and> (\<forall>v. r = Inr v \<longrightarrow>
               (\<exists>ob. v = JObj ob \<and> get_prop ob ''name'' = JStr cityName \<and> map fst ob = success_keys))
         \<and> (\<forall>address e s. city_url st cityName = Inr address
                \<and> fetchWithRetry env address 0 st = (Inl e, s) \<longrightarrow> r = Inl e \<and> st1 = s)"
proof (cases "city_url st cityName")
  case (Inl e)
  with assms have "r = Inl e" "st1 = st" by (simp_all add: scrapeCity_try_def)
  with Inl show ?thesis by simp
next
  case address: (Inr address)
  obtain fr s where f: "fetchWithRetry env address 0 st = (fr, s)"
    by (cases "fetchWithRetry env address 0 st")
  note fz = fetch_from_zero [OF f]
  show ?thesis
  proof (cases fr)
    case (Inl e)
    with assms f address have "r = Inl e" "st1 = s" by (simp_all add: scrapeCity_try_def)
    with fz f Inl address show ?thesis by simp
  next
    case (Inr response)
    show ?thesis
    proof (cases "load_city_page env response")
      case (Inl e)
      with assms f Inr address have "r = Inl e" "st1 = s" by (simp_all add: scrapeCity_try_def)
      with fz f Inr address show ?thesis by simp
    next
      case page: (Inr page)
      with assms f Inr address obtain ob where ob: "r = Inr (JObj ob)" "map fst ob = success_keys"
        "get_prop ob ''name'' = JStr cityName"
        "st1 = snd (validateCityDetails env ob (snd (now env s)))"
        by (auto simp: scrapeCity_try_def Let_def now_def success_keys_def get_prop_def
            split: prod.splits)
      from ob(4) fz have "errors st1 = errors st" "baseUrl st1 = baseUrl st"
        "concurrency st1 = concurrency st"
        by (simp_all add: validateCityDetails_keeps now_simps)
      with ob f Inr address show ?thesis by simp
    qed
  qed
qed

lemma scrapeCity_catch:
  assumes "scrapeCity_try env cityName st = (Inl e, st1)" and "baseUrl st1 = baseUrl st"
    and "city_url st cityName = Inr address"
  shows "scrapeCity env cityName st =
           (Resolved (failed_record cityName address (message e)
                        (iso_time env (clock_reads st1 + 1))),
            st1\<lparr>clock_reads := clock_reads st1 + 2,
                errors := errors st1 @
                  [error_entry cityName (message e) (iso_time env (clock_reads st1))]\<rparr>)"
proof -
  let ?st3 = "st1\<lparr>clock_reads := clock_reads st1 + 1,
                  errors := errors st1 @
                    [error_entry cityName (message e) (iso_time env (clock_reads st1))]\<rparr>"
  have "baseUrl ?st3 = baseUrl st" using assms(2) by simp
  then have "city_url ?st3 cityName = Inr address"
    using assms(3) city_url_baseUrl by metis
  with assms(1) show ?thesis
    by (simp add: scrapeCity_def now_def Let_def failed_record_def error_entry_def)
qed

text \<open>
  A name that holds a lone surrogate: the \<^verbatim>\<open>try\<close> block throws before any request, the
  \<^verbatim>\<open>catch\<close> block logs the error and throws again, and the call rejects.
\<close>

lemma scrapeCity_lone_surrogate:
  assumes "lone_surrogate cityName"
  shows "scrapeCity env cityName st =
           (Rejected (thrown (JsError ''URI malformed'')),
            st\<lparr>clock_reads := clock_reads st + 1,
               errors := errors st @
                 [error_entry cityName ''URI malformed'' (iso_time env (clock_reads st))]\<rparr>)"
proof -
  let ?st3 = "st\<lparr>clock_reads := clock_reads st + 1,
                 errors := errors st @
                   [error_entry cityName ''URI malformed'' (iso_time env (clock_reads st))]\<rparr>"
  from assms have t: "scrapeCity_try env cityName st = (Inl (JsError ''URI malformed''), st)"
    by (simp add: scrapeCity_try_def city_url_throws)
  from assms have "city_url ?st3 cityName = Inl (JsError ''URI malformed'')"
    by (rule city_url_throws)
  with t show ?thesis
    by (simp add: scrapeCity_def now_def Let_def error_entry_def)
qed

lemma scrapeCity_result:
  assumes "scrapeCity env cityName st = (out, st')" and "\<not> lone_surrogate cityName"
  shows "concurrency st' = concurrency st
         \<and> (\<exists>ob. out = Resolved (JObj ob) \<and> get_prop ob ''name'' = JStr cityName
              \<and> (map fst ob = success_keys \<and> errors st' = errors st
                 \<or> (\<exists>address msg ts ts'. JObj ob = failed_record cityName address msg ts
                       \<and> errors st' = errors st @ [error_entry cityName msg ts'])))"
proof -
  obtain r st1 where t: "scrapeCity_try env cityName st = (r, st1)"
    by (cases "scrapeCity_try env cityName st")
  from city_url_exists [OF assms(2)] obtain address where a: "city_url st cityName = Inr address"
    by blast
  from scrapeCity_try_result [OF t] have keep: "errors st1 = errors st" "baseUrl st1 = baseUrl st"
    "concurrency st1 = concurrency st"
    and ok: "\<forall>v. r = Inr v \<longrightarrow>
               (\<exists>ob. v = JObj ob \<and> get_prop ob ''name'' = JStr cityName \<and> map fst ob = success_keys)"
    by simp_all
  show ?thesis
  proof (cases r)
    case (Inr v)
    with ok obtain ob where "v = JObj ob" "get_prop ob ''name'' = JStr cityName"
      "map fst ob = success_keys" by blast
    moreover from assms t Inr have "out = Resolved v" "st' = st1" by (simp_all add: scrapeCity_def)
    ultimately show ?thesis using keep by auto
  next
    case (Inl e)
    from scrapeCity_catch [OF t [unfolded Inl] keep(2) a] assms(1)
    have out: "out = Resolved (failed_record cityName address (message e)
                                (iso_time env (clock_reads st1 + 1)))"
      and st': "st' = st1\<lparr>clock_reads := clock_reads st1 + 2,
                errors := errors st1 @
                  [error_entry cityName (message e) (iso_time env (clock_reads st1))]\<rparr>"
      by simp_all
    from out have "\<exists>ob. out = Resolved (JObj ob) \<and> get_prop ob ''name'' = JStr cityName
        \<and> JObj ob = failed_record cityName address (message e)
                      (iso_time env (clock_reads st1 + 1))"
      by (simp add: failed_record_def get_prop_def)
    with st' keep show ?thesis by auto
  qed
qed

lemma scrapeCity_fetch_failed:
  assumes "city_url st cityName = Inr address"
    and "fetchWithRetry env address 0 st = (Inl e, st1)"
  shows "scrapeCity env cityName st =
           (Resolved (failed_record cityName address (message e)
                        (iso_time env (clock_reads st1 + 1))),
            st1\<lparr>clock_reads := clock_reads st1 + 2,
                errors := errors st @
                  [error_entry cityName (message e) (iso_time env (clock_reads st1))]\<rparr>)"
proof -
  from assms have t: "scrapeCity_try env cityName st = (Inl e, st1)"
    by (simp add: scrapeCity_try_def)
  from fetch_from_zero [OF assms(2)] have k: "baseUrl st1 = baseUrl st" "errors st1 = errors st"
    by simp_all
  from scrapeCity_catch [OF t k(1) assms(1)] k(2) show ?thesis by simp
qed

lemma scrapeCity_errors_grow:
  "set (errors st) \<subseteq> set (errors (snd (scrapeCity env cityName st)))"
proof (cases "lone_surrogate cityName")
  case True
  then show ?thesis by (simp add: scrapeCity_lone_surrogate) auto
next
  case False
  obtain out st' where sc: "scrapeCity env cityName st = (out, st')"
    by (cases "scrapeCity env cityName st")
  from scrapeCity_result [OF sc False] have "set (errors st) \<subseteq> set (errors st')" by auto
  with sc show ?thesis by simp
qed

lemma city_record_after:
  "if \<not> lone_surrogate (name x)
   then \<exists>v s'. scrapeCity env (name x) s = (Resolved v, s') \<and> v \<noteq> JNull \<and> city_record x v s'
   else \<exists>v m s'. scrapeCity env (name x) s = (Rejected v, s') \<and> error_message v = Inr m"
proof (cases "lone_surrogate (name x)")
  case True
  then show ?thesis
    by (simp add: scrapeCity_lone_surrogate thrown_def error_message_def)
next
  case False
  obtain out s' where sc: "scrapeCity env (name x) s = (out, s')"
    by (cases "scrapeCity env (name x) s")
  from scrapeCity_result [OF sc False] obtain ob where ob: "out = Resolved (JObj ob)"
    "get_prop ob ''name'' = JStr (name x)"
    "map fst ob = success_keys \<and> errors s' = errors s
       \<or> (\<exists>address msg ts ts'. JObj ob = failed_record (name x) address msg ts
             \<and> errors s' = errors s @ [error_entry (name x) msg ts'])"
    by blast
  from ob(3) have "city_record x (JObj ob) s'"
  proof
    assume "map fst ob = success_keys \<and> errors s' = errors s"
    with ob(2) show ?thesis unfolding city_record_def by blast
  next
    assume "\<exists>address msg ts ts'. JObj ob = failed_record (name x) address msg ts
             \<and> errors s' = errors s @ [error_entry (name x) msg ts']"
    then obtain address msg ts ts' where f: "JObj ob = failed_record (name x) address msg ts"
      "errors s' = errors s @ [error_entry (name x) msg ts']" by blast
    from f(2) have "error_entry (name x) msg ts' \<in> set (errors s')" by simp
    with f(1) ob(2) show ?thesis unfolding city_record_def by blast
  qed
  with sc ob(1) False show ?thesis by simp
qed

lemma city_record_stable:
  assumes "city_record x v s"
  shows "city_record x v (snd (scrapeCity env (name y) s))" and "city_record x v (sleep d s)"
proof -
  from scrapeCity_errors_grow [of s env "name y"] assms
  show "city_record x v (snd (scrapeCity env (name y) s))" unfolding city_record_def by blast
  from assms show "city_record x v (sleep d s)" by (simp add: city_record_def sleep_def)
qed

text \<open>
  The batch over the listed cities returns: every city whose name can be encoded has its
  record in \<^verbatim>\<open>cityDetails\<close>, in list order, and every other city has an entry in
  \<^verbatim>\<open>cityErrors\<close>.
\<close>

lemma scrapeDetails_records:
  assumes "0 < concurrency st"
  shows "\<exists>d st'. scrapeDetails env cities st = Some (Inr d, st')
           \<and> size (cityErrors d) = length (filter (\<lambda>c. lone_surrogate (name c)) cities)
           \<and> list_all2 (\<lambda>c v. city_record c v st')
                (filter (\<lambda>c. \<not> lone_surrogate (name c)) cities) (cityDetails d)
           \<and> totalCities (run_metadata d) = length cities
           \<and> successfulScrapes (run_metadata d) = length (cityDetails d)
           \<and> failedScrapes (run_metadata d) = size (cityErrors d)
           \<and> md_errors (run_metadata d) = errors st'"
proof -
  let ?f = "\<lambda>city. scrapeCity env (name city)"
  from batch_loop_records [of "concurrency st" "\<lambda>c. \<not> lone_surrogate (name c)" ?f city_record
      cities 0 "\<lparr>results = [], batch_errors = {#}\<rparr>" st,
      OF assms city_record_after city_record_stable]
  obtain r st' where r: "batch_loop ?f (concurrency st) cities 0 \<lparr>results = [], batch_errors = {#}\<rparr> st
      = Some (Inr r, st')"
    "size (batch_errors r) = length (filter (\<lambda>c. lone_surrogate (name c)) cities)"
    "list_all2 (\<lambda>c v. city_record c v st') (filter (\<lambda>c. \<not> lone_surrogate (name c)) cities)
       (results r)"
    by auto
  then show ?thesis by (simp add: scrapeDetails_def processBatch_def)
qed

text \<open>
  Claim C6. When the address of a city page was built and the fetch of the page fails
  after its retries, \<^verbatim>\<open>scrapeCity\<close> resolves to the record with exactly the fields \<^verbatim>\<open>name\<close>,
  \<^verbatim>\<open>url\<close>, \<^verbatim>\<open>error\<close> and \<^verbatim>\<open>scrapedAt\<close>, the error being the message of the fetch error, and
  appends the entry \<^verbatim>\<open>{type: 'city', city, message, timestamp}\<close> to the error list of the
  run. The batch over the listed cities always completes, and no city is dropped: every
  listed city for which a request can be sent (its name can be encoded into an address)
  has its record in the result, in list order, each record being a success record or
  such a failed record whose entry is in the error list the run ends with, and every
  other city has its entry in \<^verbatim>\<open>cityErrors\<close>.
\<close>

theorem scrapeCity_failed_variant:
  "(city_url st cityName = Inr address
      \<and> fetchWithRetry env address 0 st = (Inl e, st1) \<longrightarrow>
      scrapeCity env cityName st =
        (Resolved (failed_record cityName address (message e)
                     (iso_time env (clock_reads st1 + 1))),
         st1\<lparr>clock_reads := clock_reads st1 + 2,
             errors := errors st @
               [error_entry cityName (message e) (iso_time env (clock_reads st1))]\<rparr>))
   \<and> (0 < concurrency st \<longrightarrow>
        (\<exists>d st'. scrapeDetails env cities st = Some (Inr d, st')
           \<and> list_all2 (\<lambda>c v. city_record c v st')
                (filter (\<lambda>c. \<not> lone_surrogate (name c)) cities) (cityDetails d)
           \<and> length (cityDetails d) + size (cityErrors d) = length cities
           \<and> md_errors (run_metadata d) = errors st'))"
proof (intro conjI impI)
  assume "city_url st cityName = Inr address
      \<and> fetchWithRetry env address 0 st = (Inl e, st1)"
  then show "scrapeCity env cityName st =
        (Resolved (failed_record cityName address (message e)
                     (iso_time env (clock_reads st1 + 1))),
         st1\<lparr>clock_reads := clock_reads st1 + 2,
             errors := errors st @
               [error_entry cityName (message e) (iso_time env (clock_reads st1))]\<rparr>)"
    using scrapeCity_fetch_failed by blast
next
  assume "0 < concurrency st"
  from scrapeDetails_records [OF this, of env cities]
  obtain d st' where d: "scrapeDetails env cities st = Some (Inr d, st')"
    "size (cityErrors d) = length (filter (\<lambda>c. lone_surrogate (name c)) cities)"
    "list_all2 (\<lambda>c v. city_record c v st')
       (filter (\<lambda>c. \<not> lone_surrogate (name c)) cities) (cityDetails d)"
    "md_errors (run_metadata d) = errors st'"
    by blast
  from d(3) have "length (cityDetails d) = length (filter (\<lambda>c. \<not> lone_surrogate (name c)) cities)"
    by (simp add: list_all2_lengthD)
  with d(2) have "length (cityDetails d) + size (cityErrors d) = length cities"
    using sum_length_filter_compl [of "\<lambda>c. lone_surrogate (name c)" cities] by simp
  with d show "\<exists>d st'. scrapeDetails env cities st = Some (Inr d, st')
           \<and> list_all2 (\<lambda>c v. city_record c v st')
                (filter (\<lambda>c. \<not> lone_surrogate (name c)) cities) (cityDetails d)
           \<and> length (cityDetails d) + size (cityErrors d) = length cities
           \<and> md_errors (run_metadata d) = errors st'"
    by blast
qed

text \<open>The default scraper and two listed cities, against a server that refuses every request.\<close>

lemmas run_simps = scrapeDetails_def processBatch_def batch_loop.simps slice_def scrapeCity_def
  scrapeCity_try_def fetchWithRetry.simps city_url_def encodeURIComponent_def unreserved_def
  now_def sleep_def env_down_def default_options_def constructor_def or_default_def
  city_a_def city_b_def city_c_def failed_record_def error_entry_def Let_def thrown_def
  error_message_def get_prop_def

lemma details_down:
  "scrapeDetails env_down [city_a, city_b] (constructor default_options) =
     Some (Inr \<lparr>cityDetails =
                  [failed_record ''Avalon'' ''https://fragile.city/city/Avalon'' ''socket hang up''
                     ''2024-01-01T00:00:00.000Z'',
                   failed_record ''Bree'' ''https://fragile.city/city/Bree'' ''socket hang up''
                     ''2024-01-01T00:00:00.000Z''],
                cityErrors = {#},
                run_metadata =
                  \<lparr>totalCities = 2, successfulScrapes = 2, failedScrapes = 0, md_concurrency = 5,
                   md_errors =
                     [error_entry ''Avalon'' ''socket hang up'' ''2024-01-01T00:00:00.000Z'',
                      error_entry ''Bree'' ''socket hang up'' ''2024-01-01T00:00:00.000Z''],
                   md_warnings = []\<rparr>\<rparr>,
           (constructor default_options)
             \<lparr>errors :=
                [error_entry ''Avalon'' ''socket hang up'' ''2024-01-01T00:00:00.000Z'',
                 error_entry ''Bree'' ''socket hang up'' ''2024-01-01T00:00:00.000Z''],
              requests :=
                replicate 4 ''https://fragile.city/city/Avalon''
                @ replicate 4 ''https://fragile.city/city/Bree'',
              sleeps := [1000, 2000, 4000, 1000, 2000, 4000],
              clock_reads := 4\<rparr>)"
  by (simp add: run_simps numeral_eq_Suc)

lemma url_avalon:
  "city_url (constructor default_options) ''Avalon'' = Inr ''https://fragile.city/city/Avalon''"
  by (simp add: run_simps)

lemma fetch_avalon_down:
  "fetchWithRetry env_down ''https://fragile.city/city/Avalon'' 0 (constructor default_options)
   = (Inl (JsError ''socket hang up''),
      (constructor default_options)
        \<lparr>requests := replicate 4 ''https://fragile.city/city/Avalon'',
         sleeps := [1000, 2000, 4000]\<rparr>)"
  by (simp add: run_simps numeral_eq_Suc)

lemma scrape_avalon_down:
  "fst (scrapeCity env_down ''Avalon'' (constructor default_options))
     = Resolved (JObj [(''name'', JStr ''Avalon''),
                       (''url'', JStr ''https://fragile.city/city/Avalon''),
                       (''error'', JStr ''socket hang up''),
                       (''scrapedAt'', JStr ''2024-01-01T00:00:00.000Z'')])"
  by (simp add: run_simps numeral_eq_Suc)

lemma concurrency_default: "0 < concurrency (constructor default_options)"
  by (simp add: constructor_def default_options_def or_default_def)

theorem scrapeCity_failed_variant_witness:
  "city_url (constructor default_options) ''Avalon'' = Inr ''https://fragile.city/city/Avalon''
   \<and> fetchWithRetry env_down ''https://fragile.city/city/Avalon'' 0 (constructor default_options)
   = (Inl (JsError ''socket hang up''),
      (constructor default_options)
        \<lparr>requests := replicate 4 ''https://fragile.city/city/Avalon'',
         sleeps := [1000, 2000, 4000]\<rparr>)
   \<and> fst (scrapeCity env_down ''Avalon'' (constructor default_options))
     = Resolved (JObj [(''name'', JStr ''Avalon''),
                       (''url'', JStr ''https://fragile.city/city/Avalon''),
                       (''error'', JStr ''socket hang up''),
                       (''scrapedAt'', JStr ''2024-01-01T00:00:00.000Z'')])
   \<and> 0 < concurrency (constructor default_options)
   \<and> map_option (map_sum message cityDetails \<circ> fst)
        (scrapeDetails env_down [city_a, city_b] (constructor default_options))
     = Some (Inr [failed_record ''Avalon'' ''https://fragile.city/city/Avalon'' ''socket hang up''
                    ''2024-01-01T00:00:00.000Z'',
                  failed_record ''Bree'' ''https://fragile.city/city/Bree'' ''socket hang up''
                    ''2024-01-01T00:00:00.000Z''])
   \<and> map_option (errors \<circ> snd)
        (scrapeDetails env_down [city_a, city_b] (constructor default_options))
     = Some [error_entry ''Avalon'' ''socket hang up'' ''2024-01-01T00:00:00.000Z'',
             error_entry ''Bree'' ''socket hang up'' ''2024-01-01T00:00:00.000Z'']"
  using scrapeCity_failed_variant [of "constructor default_options" "''Avalon''"
      "''https://fragile.city/city/Avalon''" env_down
      "JsError ''socket hang up''"
      "(constructor default_options)
        \<lparr>requests := replicate 4 ''https://fragile.city/city/Avalon'',
         sleeps := [1000, 2000, 4000]\<rparr>" "[city_a, city_b]"]
    url_avalon fetch_avalon_down scrape_avalon_down details_down concurrency_default
  by simp

text \<open>
  When no listed name holds a lone surrogate, \<^verbatim>\<open>scrapeCity\<close> resolves for every city and
  the batch records no error: \<^verbatim>\<open>cityErrors\<close> is empty, \<^verbatim>\<open>failedScrapes\<close> is 0 and
  \<^verbatim>\<open>successfulScrapes\<close> is the number of listed cities, those whose fetch failed included.
  The concurrency that the constructor sets is never 0.
\<close>

lemma scrapeDetails_well_named:
  assumes "0 < concurrency st" and "\<forall>c\<in>set cities. \<not> lone_surrogate (name c)"
  shows "\<exists>d st'. scrapeDetails env cities st = Some (Inr d, st')
           \<and> cityErrors d = {#}
           \<and> failedScrapes (run_metadata d) = 0
           \<and> successfulScrapes (run_metadata d) = length cities
           \<and> totalCities (run_metadata d) = length cities"
proof -
  from assms(2) have none: "filter (\<lambda>c. lone_surrogate (name c)) cities = []"
    and all: "filter (\<lambda>c. \<not> lone_surrogate (name c)) cities = cities"
    by (simp_all add: filter_empty_conv filter_id_conv)
  from scrapeDetails_records [OF assms(1), of env cities]
  obtain d st' where d: "scrapeDetails env cities st = Some (Inr d, st')"
    "size (cityErrors d) = length (filter (\<lambda>c. lone_surrogate (name c)) cities)"
    "list_all2 (\<lambda>c v. city_record c v st')
       (filter (\<lambda>c. \<not> lone_surrogate (name c)) cities) (cityDetails d)"
    "totalCities (run_metadata d) = length cities"
    "successfulScrapes (run_metadata d) = length (cityDetails d)"
    "failedScrapes (run_metadata d) = size (cityErrors d)"
    by blast
  from d(3) have "length cities = length (cityDetails d)"
    unfolding all by (rule list_all2_lengthD)
  moreover from d(2) have "cityErrors d = {#}" by (simp add: none)
  ultimately show ?thesis using d by auto
qed

lemma constructor_concurrency: "0 < concurrency (constructor opts)"
  by (simp add: constructor_def or_default_def split: option.splits)

lemma details_lone_surrogate:
  "scrapeDetails env_down [city_a, city_c] (constructor default_options)
     = Some (Inr \<lparr>cityDetails =
                    [failed_record ''Avalon'' ''https://fragile.city/city/Avalon''
                       ''socket hang up'' ''2024-01-01T00:00:00.000Z''],
                  cityErrors = {#\<lparr>item = city_c, error = JStr ''URI malformed''\<rparr>#},
                  run_metadata =
                    \<lparr>totalCities = 2, successfulScrapes = 1, failedScrapes = 1,
                     md_concurrency = 5,
                     md_errors =
                       [error_entry ''Avalon'' ''socket hang up'' ''2024-01-01T00:00:00.000Z'',
                        error_entry (name city_c) ''URI malformed'' ''2024-01-01T00:00:00.000Z''],
                     md_warnings = []\<rparr>\<rparr>,
             (constructor default_options)
               \<lparr>errors :=
                  [error_entry ''Avalon'' ''socket hang up'' ''2024-01-01T00:00:00.000Z'',
                   error_entry (name city_c) ''URI malformed'' ''2024-01-01T00:00:00.000Z''],
                requests := replicate 4 ''https://fragile.city/city/Avalon'',
                sleeps := [1000, 2000, 4000],
                clock_reads := 3\<rparr>)"
  by (simp add: run_simps numeral_eq_Suc)

text \<open>
  Claim C10. \<^verbatim>\<open>scrapeCity\<close> does reject: its \<^verbatim>\<open>catch\<close> block encodes the city name once more
  for the \<^verbatim>\<open>url\<close> of the failed record, outside any \<^verbatim>\<open>try\<close>. For the name \<^verbatim>\<open>Ys\<close> followed by
  a lone surrogate the encoding throws in the \<^verbatim>\<open>try\<close> block, the \<^verbatim>\<open>catch\<close> block logs the
  error and throws again, and the call rejects with the \<^verbatim>\<open>URIError\<close>. In the batch over a
  list of two cities, Avalon (whose fetch fails) and this one, \<^verbatim>\<open>cityErrors\<close> then holds
  one entry, \<^verbatim>\<open>failedScrapes\<close> is 1 and \<^verbatim>\<open>successfulScrapes\<close> is 1, not 0 and 2.
\<close>

theorem scrapeCity_rejects_lone_surrogate:
  "scrapeCity env_down (name city_c) (constructor default_options)
     = (Rejected (thrown (JsError ''URI malformed'')),
        (constructor default_options)
          \<lparr>errors := [error_entry (name city_c) ''URI malformed'' ''2024-01-01T00:00:00.000Z''],
           clock_reads := 1\<rparr>)
   \<and> map_option
        (map_sum message
           (\<lambda>d. (cityDetails d, cityErrors d, totalCities (run_metadata d),
                 successfulScrapes (run_metadata d), failedScrapes (run_metadata d))) \<circ> fst)
        (scrapeDetails env_down [city_a, city_c] (constructor default_options))
     = Some (Inr ([failed_record ''Avalon'' ''https://fragile.city/city/Avalon''
                     ''socket hang up'' ''2024-01-01T00:00:00.000Z''],
                  {#\<lparr>item = city_c, error = JStr ''URI malformed''\<rparr>#},
                  2, 1, 1))"
proof (intro conjI)
  show "scrapeCity env_down (name city_c) (constructor default_options)
     = (Rejected (thrown (JsError ''URI malformed'')),
        (constructor default_options)
          \<lparr>errors := [error_entry (name city_c) ''URI malformed'' ''2024-01-01T00:00:00.000Z''],
           clock_reads := 1\<rparr>)"
    by (simp add: run_simps)
qed (simp add: details_lone_surrogate)

end
